theory Spec2Isabelle
  imports Complex_Main
begin

section \<open>Probabilistic matrix factorization (pmf\_cy.pyx)\<close>

text \<open>
  The class \<open>ProbabilisticMatrixFactorization\<close> of \<open>pmf_cy.pyx\<close>, embedded as
  functions over a record of its fields.

  Numbers. The numpy arrays hold floats and the configuration scalars are C floats; they
  are modelled by \<^typ>\<open>real\<close>, so rounding, overflow, infinities and NaN are outside the
  model (division by a zero variance, which \<open>cdivision\<close> turns into inf or NaN, is where
  the model's value means nothing). The \<open>cdef int\<close> fields are modelled by \<^typ>\<open>int\<close>
  without wrap-around.

  Arrays. A 2-D array is the list of its rows; a well-formed one has rows of one length.
  The rating array has rows \<open>[i, j, rating]\<close>: the indices are stored as floats, as in
  the source, and converted where the source converts them.

  Failure. Every \<open>raise\<close> and failed \<open>assert\<close> of the source is a value of
  \<open>error\<close>; a method that mutates the object returns the state it leaves behind.
\<close>

subsection \<open>Errors and array helpers\<close>

datatype error =
    TypeError_invalid_rating_tuple_length  \<comment> \<open>\<open>TypeError("invalid rating tuple length")\<close>\<close>
  | TypeError_bad_shape_for_extra          \<comment> \<open>\<open>TypeError("bad shape for extra")\<close>\<close>
  | ValueError_already_rated               \<comment> \<open>\<open>ValueError("can't rate already rated items")\<close>\<close>
  | AssertionError                         \<comment> \<open>a failed \<open>assert\<close>\<close>
  | ValueError_zero_size_max               \<comment> \<open>\<open>np.max\<close> of an empty array\<close>
  | ValueError_negative_dimensions         \<comment> \<open>\<open>np.random.random\<close> with a negative size\<close>
  | ValueError_shapes_not_aligned          \<comment> \<open>\<open>np.dot\<close> on operands of different length\<close>
  | ValueError_broadcast                   \<comment> \<open>operands could not be broadcast together\<close>
  | ValueError_unpack                      \<comment> \<open>a row that does not unpack into three names\<close>
  | IndexError                             \<comment> \<open>an index out of bounds\<close>
  | AttributeError                         \<comment> \<open>\<open>setattr\<close> of a name the class does not have\<close>
  | TypeError_setattr                      \<comment> \<open>\<open>setattr\<close> of a value the field's type refuses\<close>
  | Float_nan                              \<comment> \<open>not an exception: the float result is NaN\<close>

type_synonym vec = "real list"
type_synonym matrix = "real list list"

definition bind_err :: "error + 'a \<Rightarrow> ('a \<Rightarrow> error + 'b) \<Rightarrow> error + 'b" where
  "bind_err r f = (case r of Inl e \<Rightarrow> Inl e | Inr x \<Rightarrow> f x)"

text \<open>Python's \<open>int(x)\<close> on a float, and the conversion of a float to a C int: truncation
  towards zero.\<close>

definition py_int :: "real \<Rightarrow> int" where
  "py_int x = (if 0 \<le> x then \<lfloor>x\<rfloor> else \<lceil>x\<rceil>)"

text \<open>The position an integer index denotes in a sequence of \<open>n\<close> items: Python counts a
  negative index from the end and raises for one out of bounds.\<close>

definition py_index :: "nat \<Rightarrow> int \<Rightarrow> error + nat" where
  "py_index n i =
     (if 0 \<le> i \<and> i < int n then Inr (nat i)
      else if - int n \<le> i \<and> i < 0 then Inr (nat (int n + i))
      else Inl IndexError)"

text \<open>\<open>M[i, :]\<close>, a row of a 2-D array.\<close>

definition row_at :: "matrix \<Rightarrow> int \<Rightarrow> error + vec" where
  "row_at M i = bind_err (py_index (length M) i) (\<lambda>k. Inr (M ! k))"

text \<open>\<open>M[:, c]\<close> on an array whose rows all have more than \<open>c\<close> entries.\<close>

definition column :: "nat \<Rightarrow> matrix \<Rightarrow> vec" where
  "column c M = map (\<lambda>r. r ! c) M"

text \<open>\<open>np.max\<close> of a 1-D array.\<close>

definition np_max :: "vec \<Rightarrow> error + real" where
  "np_max xs = (case xs of [] \<Rightarrow> Inl ValueError_zero_size_max | x # ys \<Rightarrow> Inr (fold max ys x))"

text \<open>\<open>np.dot\<close> of two 1-D arrays.\<close>

definition dot_sum :: "vec \<Rightarrow> vec \<Rightarrow> real" where
  "dot_sum u v = sum_list (map (\<lambda>(a, b). a * b) (zip u v))"

definition np_dot :: "vec \<Rightarrow> vec \<Rightarrow> error + real" where
  "np_dot u v =
     (if length u \<noteq> length v then Inl ValueError_shapes_not_aligned else Inr (dot_sum u v))"

text \<open>\<open>np.dot(A, B.T)\<close> of two 2-D arrays: entry \<open>(i, j)\<close> is the product of row \<open>i\<close>
  of \<open>A\<close> with row \<open>j\<close> of \<open>B\<close>; the rows of \<open>A\<close> and of \<open>B\<close> must have one length.\<close>

definition shapes_aligned :: "matrix \<Rightarrow> matrix \<Rightarrow> bool" where
  "shapes_aligned A B = list_all (\<lambda>u. list_all (\<lambda>v. length u = length v) B) A"

definition np_dot_T :: "matrix \<Rightarrow> matrix \<Rightarrow> error + matrix" where
  "np_dot_T A B =
     (if shapes_aligned A B then Inr (map (\<lambda>u. map (\<lambda>v. dot_sum u v) B) A)
      else Inl ValueError_shapes_not_aligned)"

text \<open>The shape of a 2-D array given by its rows, and \<open>A - B\<close> with numpy's broadcasting:
  along each axis the two lengths are equal or one of them is 1, and the operand of
  length 1 is repeated.\<close>

definition nrows :: "matrix \<Rightarrow> nat" where
  "nrows M = length M"

definition ncols :: "matrix \<Rightarrow> nat" where
  "ncols M = (case M of [] \<Rightarrow> 0 | r # _ \<Rightarrow> length r)"

definition broadcast_dim :: "nat \<Rightarrow> nat \<Rightarrow> nat option" where
  "broadcast_dim a b =
     (if a = b then Some a else if a = 1 then Some b else if b = 1 then Some a else None)"

definition broadcast_get :: "matrix \<Rightarrow> nat \<Rightarrow> nat \<Rightarrow> real" where
  "broadcast_get M i j =
     M ! (if nrows M = 1 then 0 else i) ! (if ncols M = 1 then 0 else j)"

definition np_sub :: "matrix \<Rightarrow> matrix \<Rightarrow> error + matrix" where
  "np_sub A B =
     (case (broadcast_dim (nrows A) (nrows B), broadcast_dim (ncols A) (ncols B)) of
        (Some n, Some m) \<Rightarrow>
          Inr (map (\<lambda>i. map (\<lambda>j. broadcast_get A i j - broadcast_get B i j) [0..<m]) [0..<n])
      | _ \<Rightarrow> Inl ValueError_broadcast)"

text \<open>\<open>np.random.random((n, d))\<close>: the random source is a stream \<open>rs\<close> of draws from
  \<open>[0, 1)\<close>, read from position \<open>off\<close> on, row by row.\<close>

definition random_matrix :: "(nat \<Rightarrow> real) \<Rightarrow> nat \<Rightarrow> nat \<Rightarrow> nat \<Rightarrow> matrix" where
  "random_matrix rs off n d = map (\<lambda>i. map (\<lambda>k. rs (off + i * d + k)) [0..<d]) [0..<n]"

definition np_random :: "(nat \<Rightarrow> real) \<Rightarrow> nat \<Rightarrow> int \<Rightarrow> int \<Rightarrow> error + matrix" where
  "np_random rs off n d =
     (if n < 0 \<or> d < 0 then Inl ValueError_negative_dimensions
      else Inr (random_matrix rs off (nat n) (nat d)))"

text \<open>\<open>np.linalg.norm\<close> of a 2-D array with no further argument: the Frobenius norm,
  the square root of the sum of the squares of all entries.\<close>

definition np_linalg_norm :: "matrix \<Rightarrow> real" where
  "np_linalg_norm M = sqrt (sum_list (map (\<lambda>x. x\<^sup>2) (concat M)))"

text \<open>Entrywise operations on arrays of one shape: \<open>c * M\<close>, \<open>M / c\<close>, \<open>-M\<close>, \<open>A + B\<close>.\<close>

definition vec_scale :: "real \<Rightarrow> vec \<Rightarrow> vec" where
  "vec_scale c v = map (\<lambda>x. x * c) v"

definition vec_add :: "vec \<Rightarrow> vec \<Rightarrow> vec" where
  "vec_add u v = map (\<lambda>(a, b). a + b) (zip u v)"

definition mat_scale :: "real \<Rightarrow> matrix \<Rightarrow> matrix" where
  "mat_scale c M = map (map (\<lambda>x. c * x)) M"

definition mat_neg_div :: "matrix \<Rightarrow> real \<Rightarrow> matrix" where
  "mat_neg_div M c = map (map (\<lambda>x. - x / c)) M"

definition mat_add :: "matrix \<Rightarrow> matrix \<Rightarrow> matrix" where
  "mat_add A B = map (\<lambda>(a, b). vec_add a b) (zip A B)"

subsection \<open>The object\<close>

record model =
  latent_d :: int
  num_users :: int
  num_items :: int
  learning_rate :: real
  min_learning_rate :: real
  stop_thresh :: real
  sigma_sq :: real
  sigma_u_sq :: real
  sigma_v_sq :: real
  ratings :: matrix
  users :: matrix
  items :: matrix
  rated :: "(real \<times> real) set"
  unrated :: "(real \<times> real) set"

text \<open>\<open>__cinit__\<close>: the defaults of the configuration scalars. The other fields are as
  Cython leaves them before \<open>__init__\<close> runs (zero; the object fields, \<open>None\<close> in the
  source, are empty here).\<close>

definition cinit :: model where
  "cinit = \<lparr> latent_d = 0, num_users = 0, num_items = 0,
     learning_rate = 1 / 10000, min_learning_rate = 1 / 10000000000, stop_thresh = 1 / 100,
     sigma_sq = 1, sigma_u_sq = 10, sigma_v_sq = 10,
     ratings = [], users = [], items = [], rated = {}, unrated = {} \<rparr>"

subsection \<open>\<open>__getstate__\<close> and \<open>__setstate__\<close>\<close>

text \<open>The values of the state dictionary. A dictionary is the list of its items, in the
  order the source writes them.\<close>

datatype pyvalue =
    VInt int
  | VFloat real
  | VArray matrix
  | VSet "(real \<times> real) set"

type_synonym state_dict = "(string \<times> pyvalue) list"

definition getstate :: "model \<Rightarrow> state_dict" where
  "getstate self =
     [ (''latent_d'', VInt (latent_d self)),
       (''num_users'', VInt (num_users self)),
       (''num_items'', VInt (num_items self)),
       (''learning_rate'', VFloat (learning_rate self)),
       (''min_learning_rate'', VFloat (min_learning_rate self)),
       (''stop_thresh'', VFloat (stop_thresh self)),
       (''sigma_sq'', VFloat (sigma_sq self)),
       (''sigma_u_sq'', VFloat (sigma_u_sq self)),
       (''sigma_v_sq'', VFloat (sigma_v_sq self)),
       (''ratings'', VArray (ratings self)),
       (''users'', VArray (users self)),
       (''items'', VArray (items self)),
       (''rated'', VSet (rated self)),
       (''unrated'', VSet (unrated self)) ]"

text \<open>The coercions Cython applies when a public field of a C type is assigned: an int
  field takes an int or truncates a float, a float field takes a float or an int, an
  \<open>np.ndarray\<close> field takes an array. The \<open>object\<close> fields \<open>rated\<close> and \<open>unrated\<close>
  take any object in the source; the model holds sets of pairs there and refuses the
  rest.\<close>

definition as_int :: "pyvalue \<Rightarrow> error + int" where
  "as_int v = (case v of VInt n \<Rightarrow> Inr n | VFloat x \<Rightarrow> Inr (py_int x) | _ \<Rightarrow> Inl TypeError_setattr)"

definition as_float :: "pyvalue \<Rightarrow> error + real" where
  "as_float v = (case v of VFloat x \<Rightarrow> Inr x | VInt n \<Rightarrow> Inr (real_of_int n) | _ \<Rightarrow> Inl TypeError_setattr)"

definition as_array :: "pyvalue \<Rightarrow> error + matrix" where
  "as_array v = (case v of VArray a \<Rightarrow> Inr a | _ \<Rightarrow> Inl TypeError_setattr)"

definition as_set :: "pyvalue \<Rightarrow> error + (real \<times> real) set" where
  "as_set v = (case v of VSet s \<Rightarrow> Inr s | _ \<Rightarrow> Inl TypeError_setattr)"

definition setattr :: "model \<Rightarrow> string \<Rightarrow> pyvalue \<Rightarrow> error + model" where
  "setattr self k v =
     (if k = ''latent_d'' then bind_err (as_int v) (\<lambda>x. Inr (self\<lparr>latent_d := x\<rparr>))
      else if k = ''num_users'' then bind_err (as_int v) (\<lambda>x. Inr (self\<lparr>num_users := x\<rparr>))
      else if k = ''num_items'' then bind_err (as_int v) (\<lambda>x. Inr (self\<lparr>num_items := x\<rparr>))
      else if k = ''learning_rate'' then bind_err (as_float v) (\<lambda>x. Inr (self\<lparr>learning_rate := x\<rparr>))
      else if k = ''min_learning_rate'' then bind_err (as_float v) (\<lambda>x. Inr (self\<lparr>min_learning_rate := x\<rparr>))
      else if k = ''stop_thresh'' then bind_err (as_float v) (\<lambda>x. Inr (self\<lparr>stop_thresh := x\<rparr>))
      else if k = ''sigma_sq'' then bind_err (as_float v) (\<lambda>x. Inr (self\<lparr>sigma_sq := x\<rparr>))
      else if k = ''sigma_u_sq'' then bind_err (as_float v) (\<lambda>x. Inr (self\<lparr>sigma_u_sq := x\<rparr>))
      else if k = ''sigma_v_sq'' then bind_err (as_float v) (\<lambda>x. Inr (self\<lparr>sigma_v_sq := x\<rparr>))
      else if k = ''ratings'' then bind_err (as_array v) (\<lambda>x. Inr (self\<lparr>ratings := x\<rparr>))
      else if k = ''users'' then bind_err (as_array v) (\<lambda>x. Inr (self\<lparr>users := x\<rparr>))
      else if k = ''items'' then bind_err (as_array v) (\<lambda>x. Inr (self\<lparr>items := x\<rparr>))
      else if k = ''rated'' then bind_err (as_set v) (\<lambda>x. Inr (self\<lparr>rated := x\<rparr>))
      else if k = ''unrated'' then bind_err (as_set v) (\<lambda>x. Inr (self\<lparr>unrated := x\<rparr>))
      else Inl AttributeError)"

text \<open>\<open>for k, v in state.items(): setattr(self, k, v)\<close>; the first failing assignment
  ends the loop.\<close>

fun setstate :: "model \<Rightarrow> state_dict \<Rightarrow> error + model" where
  "setstate self [] = Inr self"
| "setstate self ((k, v) # rest) = bind_err (setattr self k v) (\<lambda>self'. setstate self' rest)"

subsection \<open>\<open>__init__\<close>\<close>

text \<open>\<open>set(itertools.product(range(n), range(m)))\<close>, the index grid.\<close>

definition grid :: "int \<Rightarrow> int \<Rightarrow> (real \<times> real) set" where
  "grid n m = set [(real_of_int i, real_of_int j). i \<leftarrow> [0..n - 1], j \<leftarrow> [0..m - 1]]"

text \<open>\<open>set(map(tuple, ratings[:, :2]))\<close>, the pairs of the first two columns.\<close>

definition index_pairs :: "matrix \<Rightarrow> (real \<times> real) set" where
  "index_pairs rs = set (map (\<lambda>r. (r ! 0, r ! 1)) rs)"

text \<open>\<open>__init__(self, rating_tuples, latent_d)\<close>. The argument is a 2-D array (the
  signature types it \<open>np.ndarray\<close>); \<open>shape[1] != 3\<close> is read on its rows, so that the
  array without rows passes the test as an array of shape \<open>(0, 3)\<close> does and fails in
  \<open>np.max\<close>. An exception leaves no object, so the result is the object or the error.
  The two factor matrices are consecutive draws from the stream \<open>rs\<close>.\<close>

definition init :: "model \<Rightarrow> matrix \<Rightarrow> int \<Rightarrow> (nat \<Rightarrow> real) \<Rightarrow> error + model" where
  "init self rating_tuples d rs =
     (if \<not> list_all (\<lambda>r. length r = 3) rating_tuples
      then Inl TypeError_invalid_rating_tuple_length
      else
        bind_err (np_max (column 0 rating_tuples)) (\<lambda>max0.
        bind_err (np_max (column 1 rating_tuples)) (\<lambda>max1.
          let n = py_int (max0 + 1);
              m = py_int (max1 + 1);
              rated' = index_pairs rating_tuples;
              unrated' = grid n m - rated'
          in
            bind_err (np_random rs 0 n d) (\<lambda>us.
            bind_err (np_random rs (nat n * nat d) m d) (\<lambda>vs.
              Inr (self\<lparr> latent_d := d, ratings := rating_tuples,
                         num_users := n, num_items := m,
                         rated := rated', unrated := unrated',
                         users := us, items := vs \<rparr>))))))"

text \<open>\<open>type(self)(rating_tuples, latent_d)\<close>: \<open>__cinit__\<close>, then \<open>__init__\<close>.\<close>

definition new_model :: "matrix \<Rightarrow> int \<Rightarrow> (nat \<Rightarrow> real) \<Rightarrow> error + model" where
  "new_model rating_tuples d rs = init cinit rating_tuples d rs"

subsection \<open>\<open>__copy__\<close> and \<open>__deepcopy__\<close>\<close>

definition copy :: "model \<Rightarrow> (nat \<Rightarrow> real) \<Rightarrow> error + model" where
  "copy self rs =
     bind_err (new_model (ratings self) (latent_d self) rs) (\<lambda>res.
       setstate res (getstate res))"

text \<open>\<open>__deepcopy__\<close> passes copies of the rating array and of the state dictionary, which
  are equal in value to the originals.\<close>

definition deepcopy :: "model \<Rightarrow> (nat \<Rightarrow> real) \<Rightarrow> error + model" where
  "deepcopy self rs =
     bind_err (new_model (ratings self) (latent_d self) rs) (\<lambda>res.
       setstate res (getstate res))"

subsection \<open>\<open>add_ratings\<close>\<close>

text \<open>\<open>np.array(extra, copy=False, ndmin=2)\<close> on the rows of \<open>extra\<close>: an empty list
  becomes an array of one row without entries.\<close>

definition ndmin2 :: "matrix \<Rightarrow> matrix" where
  "ndmin2 extra = (if extra = [] then [[]] else extra)"

text \<open>\<open>set((int(i), int(j)) for i, j in extra[:, :2])\<close>.\<close>

definition new_items_of :: "matrix \<Rightarrow> (real \<times> real) set" where
  "new_items_of extra =
     set (map (\<lambda>r. (real_of_int (py_int (r ! 0)), real_of_int (py_int (r ! 1)))) extra)"

text \<open>\<open>add_ratings(self, extra)\<close> returns the exception raised, if any, and the object as
  the call leaves it. The batch is given by its rows (the flat triple that \<open>add_rating\<close>
  passes is its own single row), so it is 2-D after \<open>ndmin=2\<close> and the test
  \<open>len(extra.shape) != 2\<close> has no branch here. The number of columns \<open>cols\<close> is that of
  the rating array; with fewer than two columns the column reads of the source are out of
  bounds.\<close>

definition add_ratings :: "model \<Rightarrow> matrix \<Rightarrow> error option \<times> model" where
  "add_ratings self extra0 =
     (let cols = ncols (ratings self);
          extra = ndmin2 extra0
      in
        if \<not> list_all (\<lambda>r. length r = cols) extra then (Some TypeError_bad_shape_for_extra, self)
        else if cols < 2 then (Some IndexError, self)
        else
          (case np_max (map (\<lambda>x. x + 1) (column 0 extra)) of
             Inl e \<Rightarrow> (Some e, self)
           | Inr top0 \<Rightarrow>
               if \<not> top0 \<le> real_of_int (num_users self) then (Some AssertionError, self)
               else
                 (case np_max (map (\<lambda>x. x + 1) (column 1 extra)) of
                    Inl e \<Rightarrow> (Some e, self)
                  | Inr top1 \<Rightarrow>
                      if \<not> top1 \<le> real_of_int (num_items self) then (Some AssertionError, self)
                      else
                        (let new_items = new_items_of extra in
                           if \<not> new_items \<subseteq> unrated self
                           then (Some ValueError_already_rated, self)
                           else (None, self\<lparr> rated := rated self \<union> new_items,
                                              unrated := unrated self - new_items,
                                              ratings := ratings self @ extra \<rparr>)))))"

text \<open>\<open>add_rating(self, i, j, rating)\<close>.\<close>

definition add_rating :: "model \<Rightarrow> int \<Rightarrow> int \<Rightarrow> real \<Rightarrow> error option \<times> model" where
  "add_rating self i j rating = add_ratings self [[real_of_int i, real_of_int j, rating]]"

subsection \<open>\<open>log_likelihood\<close> and \<open>gradient\<close>\<close>

text \<open>The loop \<open>for i, j, rating in self.ratings\<close> of \<open>log_likelihood\<close>, with the
  accumulator \<open>sq_error\<close>; \<open>i\<close> and \<open>j\<close> are C ints.\<close>

fun sq_error_loop :: "matrix \<Rightarrow> matrix \<Rightarrow> matrix \<Rightarrow> real \<Rightarrow> error + real" where
  "sq_error_loop [] us vs sq_error = Inr sq_error"
| "sq_error_loop (row # rest) us vs sq_error =
     (case row of
        [i, j, rating] \<Rightarrow>
          bind_err (row_at us (py_int i)) (\<lambda>u.
          bind_err (row_at vs (py_int j)) (\<lambda>v.
          bind_err (np_dot u v) (\<lambda>r_hat.
            sq_error_loop rest us vs (sq_error + (rating - r_hat)\<^sup>2))))
      | _ \<Rightarrow> Inl ValueError_unpack)"

text \<open>\<open>log_likelihood(self, users, items)\<close>, the factor matrices given. Both norms are
  taken of \<open>users\<close>, as in the source.\<close>

definition log_likelihood :: "model \<Rightarrow> matrix \<Rightarrow> matrix \<Rightarrow> error + real" where
  "log_likelihood self us vs =
     bind_err (sq_error_loop (ratings self) us vs 0) (\<lambda>sq_error.
       let user_norm = np_linalg_norm us;
           item_norm = np_linalg_norm us
       in Inr (- sq_error / (2 * sigma_sq self)
               - user_norm / (2 * sigma_u_sq self)
               - item_norm / (2 * sigma_v_sq self)))"

text \<open>\<open>log_likelihood()\<close> with no argument: on the object's own factor matrices.\<close>

definition log_likelihood_self :: "model \<Rightarrow> error + real" where
  "log_likelihood_self self = log_likelihood self (users self) (items self)"

text \<open>The loop of \<open>gradient\<close>, with the accumulators \<open>grad_u\<close> and \<open>grad_v\<close>.\<close>

fun gradient_loop :: "model \<Rightarrow> matrix \<Rightarrow> matrix \<times> matrix \<Rightarrow> error + matrix \<times> matrix" where
  "gradient_loop self [] (grad_u, grad_v) = Inr (grad_u, grad_v)"
| "gradient_loop self (row # rest) (grad_u, grad_v) =
     (case row of
        [i, j, rating] \<Rightarrow>
          bind_err (py_index (length (users self)) (py_int i)) (\<lambda>a.
          bind_err (py_index (length (items self)) (py_int j)) (\<lambda>b.
          bind_err (np_dot (users self ! a) (items self ! b)) (\<lambda>r_hat.
            let c = (rating - r_hat) / sigma_sq self in
              gradient_loop self rest
                (grad_u[a := vec_add (grad_u ! a) (vec_scale c (items self ! b))],
                 grad_v[b := vec_add (grad_v ! b) (vec_scale c (users self ! a))]))))
      | _ \<Rightarrow> Inl ValueError_unpack)"

text \<open>\<open>gradient(self)\<close>: the accumulators start at \<open>-self.users / self.sigma_u_sq\<close> and
  \<open>-self.items / self.sigma_v_sq\<close>.\<close>

definition gradient :: "model \<Rightarrow> error + matrix \<times> matrix" where
  "gradient self =
     gradient_loop self (ratings self)
       (mat_neg_div (users self) (sigma_u_sq self), mat_neg_div (items self) (sigma_v_sq self))"

subsection \<open>\<open>fit_lls\<close>\<close>

text \<open>The local variables of the generator \<open>fit_lls\<close> that live across a \<open>yield\<close>.\<close>

record gen =
  g_lr :: real
  g_old_ll :: real
  g_converged :: bool

text \<open>The lines of \<open>fit_lls\<close> before its outer loop.\<close>

definition fit_lls_start :: "model \<Rightarrow> error + gen" where
  "fit_lls_start self =
     bind_err (log_likelihood_self self) (\<lambda>ll.
       Inr \<lparr> g_lr = learning_rate self, g_old_ll = ll, g_converged = False \<rparr>)"

text \<open>The inner loop \<open>while True\<close>: it returns the object, the learning rate, \<open>new_ll\<close> and
  \<open>converged\<close> as they are at the \<open>break\<close>, or the exception of \<open>log_likelihood\<close>. The
  loop need not end: \<open>None\<close> is the run that never leaves it.\<close>

partial_function (option) line_search ::
  "model \<Rightarrow> matrix \<Rightarrow> matrix \<Rightarrow> real \<Rightarrow> real \<Rightarrow> (error + model \<times> real \<times> real \<times> bool) option"
where
  "line_search self grad_u grad_v rate old_ll =
     (let new_users = mat_add (users self) (mat_scale rate grad_u);
          new_items = mat_add (items self) (mat_scale rate grad_v)
      in
        case log_likelihood self new_users new_items of
          Inl e \<Rightarrow> Some (Inl e)
        | Inr new_ll \<Rightarrow>
            if new_ll > old_ll
            then Some (Inr (self\<lparr> users := new_users, items := new_items \<rparr>,
                            rate * (5 / 4), new_ll, new_ll - old_ll < stop_thresh self))
            else if rate * (1 / 2) < min_learning_rate self
            then Some (Inr (self, rate * (1 / 2), new_ll, True))
            else line_search self grad_u grad_v (rate * (1 / 2)) old_ll)"

text \<open>One \<open>next()\<close> on the generator: an iteration of the outer loop up to its \<open>yield\<close>
  (with the assignment \<open>old_ll = new_ll\<close> that follows the \<open>yield\<close>), or the end of the
  generator. An exception closes the generator; the state given with \<open>Raised\<close> is the one
  at the raise.\<close>

datatype outcome = StopIteration | Raised error | Yield real

definition fit_lls_next :: "model \<times> gen \<Rightarrow> (outcome \<times> model \<times> gen) option" where
  "fit_lls_next s =
     (let self = fst s; g = snd s in
        if g_converged g then Some (StopIteration, self, g)
        else
          case gradient self of
            Inl e \<Rightarrow> Some (Raised e, self, g)
          | Inr (grad_u, grad_v) \<Rightarrow>
              (case line_search self grad_u grad_v (g_lr g) (g_old_ll g) of
                 None \<Rightarrow> None
               | Some (Inl e) \<Rightarrow> Some (Raised e, self, g)
               | Some (Inr (self', rate', new_ll, conv)) \<Rightarrow>
                   Some (Yield new_ll, self',
                         \<lparr> g_lr = rate', g_old_ll = new_ll, g_converged = conv \<rparr>)))"

text \<open>The values the generator yields to a consumer that asks for at most \<open>k\<close> of them,
  and the state it is left in.\<close>

fun fit_lls_take :: "nat \<Rightarrow> model \<times> gen \<Rightarrow> (real list \<times> model \<times> gen) option" where
  "fit_lls_take 0 s = Some ([], s)"
| "fit_lls_take (Suc k) s =
     (case fit_lls_next s of
        None \<Rightarrow> None
      | Some (Yield v, s') \<Rightarrow>
          (case fit_lls_take k s' of
             None \<Rightarrow> None
           | Some (vs, s'') \<Rightarrow> Some (v # vs, s''))
      | Some (_, s') \<Rightarrow> Some ([], s'))"

text \<open>\<open>fit(self)\<close>: the loop \<open>for ll in self.fit_lls(): pass\<close>, which asks for values
  until the generator ends; \<open>None\<close> is the run that never ends.\<close>

partial_function (option) fit_loop :: "model \<times> gen \<Rightarrow> (error option \<times> model) option" where
  "fit_loop s =
     (case fit_lls_next s of
        None \<Rightarrow> None
      | Some (Yield ll, s') \<Rightarrow> fit_loop s'
      | Some (Raised e, s') \<Rightarrow> Some (Some e, fst s')
      | Some (StopIteration, s') \<Rightarrow> Some (None, fst s'))"

definition fit :: "model \<Rightarrow> (error option \<times> model) option" where
  "fit self =
     (case fit_lls_start self of
        Inl e \<Rightarrow> Some (Some e, self)
      | Inr g \<Rightarrow> fit_loop (self, g))"

subsection \<open>\<open>predicted_matrix\<close> and \<open>rmse\<close>\<close>

definition predicted_matrix :: "model \<Rightarrow> error + matrix" where
  "predicted_matrix self = np_dot_T (users self) (items self)"

text \<open>\<open>rmse(self, real)\<close> for a 2-D array \<open>real\<close> (here \<open>real_m\<close>). \<open>real.size\<close> is the
  number of entries of the argument; with no entry the quotient is \<open>0.0 / 0\<close>, which
  numpy evaluates to NaN.\<close>

definition rmse :: "model \<Rightarrow> matrix \<Rightarrow> error + real" where
  "rmse self real_m =
     bind_err (predicted_matrix self) (\<lambda>predicted.
     bind_err (np_sub real_m predicted) (\<lambda>diff.
       let total = sum_list (map (\<lambda>x. x\<^sup>2) (concat diff));
           entries = nrows real_m * ncols real_m
       in if entries = 0 then Inl Float_nan else Inr (sqrt (total / real_of_nat entries))))"

subsection \<open>Invariants\<close>

text \<open>The rated and the unrated set partition the index grid of the object.\<close>

definition partitioned :: "model \<Rightarrow> bool" where
  "partitioned m \<longleftrightarrow>
     rated m \<inter> unrated m = {} \<and> rated m \<union> unrated m = grid (num_users m) (num_items m)"

text \<open>A rating array with valid indices: the first two entries of every row are 0-based
  integers.\<close>

definition is_index :: "real \<Rightarrow> bool" where
  "is_index x \<longleftrightarrow> 0 \<le> x \<and> real_of_int \<lfloor>x\<rfloor> = x"

definition valid_indices :: "matrix \<Rightarrow> bool" where
  "valid_indices rs = list_all (\<lambda>r. is_index (r ! 0) \<and> is_index (r ! 1)) rs"

text \<open>\<open>int(np.max(ratings[:, c]) + 1)\<close> for an array with rows.\<close>

definition top_index :: "nat \<Rightarrow> matrix \<Rightarrow> int" where
  "top_index c rs = py_int (Max (set (column c rs)) + 1)"

text \<open>An array of \<open>n\<close> rows of \<open>d\<close> entries each.\<close>

definition has_shape :: "matrix \<Rightarrow> nat \<Rightarrow> nat \<Rightarrow> bool" where
  "has_shape M n d \<longleftrightarrow> length M = n \<and> list_all (\<lambda>r. length r = d) M"

text \<open>The factor matrices have the shapes \<open>(num_users, latent_d)\<close> and
  \<open>(num_items, latent_d)\<close>.\<close>

definition factors_shaped :: "model \<Rightarrow> bool" where
  "factors_shaped m \<longleftrightarrow>
     has_shape (users m) (nat (num_users m)) (nat (latent_d m))
     \<and> has_shape (items m) (nat (num_items m)) (nat (latent_d m))"

text \<open>The fields \<open>__init__\<close> derives from the rating array agree with it.\<close>

definition well_formed :: "model \<Rightarrow> bool" where
  "well_formed m \<longleftrightarrow>
     ratings m \<noteq> [] \<and> list_all (\<lambda>r. length r = 3) (ratings m) \<and> valid_indices (ratings m)
     \<and> 0 \<le> latent_d m
     \<and> num_users m = top_index 0 (ratings m) \<and> num_items m = top_index 1 (ratings m)
     \<and> rated m = index_pairs (ratings m)
     \<and> unrated m = grid (num_users m) (num_items m) - rated m"

text \<open>The objects that \<open>__init__\<close>, \<open>add_ratings\<close> and the steps of \<open>fit_lls\<close>
  produce from rating arrays with valid indices.\<close>

inductive reachable :: "model \<Rightarrow> bool" where
  built: "new_model rating_tuples d rs = Inr m \<Longrightarrow> valid_indices rating_tuples \<Longrightarrow> reachable m"
| rated_more: "reachable m \<Longrightarrow> valid_indices extra \<Longrightarrow> add_ratings m extra = (None, m')
    \<Longrightarrow> reachable m'"
| fitted: "reachable m \<Longrightarrow> fit_lls_next (m, g) = Some (out, m', g') \<Longrightarrow> reachable m'"

subsection \<open>Statements about the fitting sequence\<close>

text \<open>The proposal \<open>M + lr * grad\<close> of the inner loop.\<close>

definition step_to :: "matrix \<Rightarrow> matrix \<Rightarrow> real \<Rightarrow> matrix" where
  "step_to M grad r = mat_add M (mat_scale r grad)"

text \<open>What the inner loop returns when it returns: an exception of \<open>log_likelihood\<close>; or,
  after \<open>k\<close> rejected proposals, an accepted proposal at the rate \<open>rate * (1/2) ^ k\<close>,
  stored in the object, with the rate multiplied by 5/4; or, after \<open>k + 1\<close> rejected
  proposals, a rate below the minimum, the object as it was, and \<open>converged\<close> set.\<close>

definition line_search_post ::
  "model \<Rightarrow> matrix \<Rightarrow> matrix \<Rightarrow> real \<Rightarrow> real \<Rightarrow> (error + model \<times> real \<times> real \<times> bool) \<Rightarrow> bool" where
  "line_search_post self gu gv rate old_ll y \<longleftrightarrow>
     (\<exists>e. y = Inl e) \<or>
     (\<exists>k new_ll.
        log_likelihood self (step_to (users self) gu (rate * (1 / 2) ^ k))
                            (step_to (items self) gv (rate * (1 / 2) ^ k)) = Inr new_ll
        \<and> (old_ll < new_ll
             \<and> y = Inr (self\<lparr> users := step_to (users self) gu (rate * (1 / 2) ^ k),
                               items := step_to (items self) gv (rate * (1 / 2) ^ k) \<rparr>,
                         rate * (1 / 2) ^ k * (5 / 4), new_ll, new_ll - old_ll < stop_thresh self)
           \<or> \<not> old_ll < new_ll \<and> rate * (1 / 2) ^ Suc k < min_learning_rate self
             \<and> y = Inr (self, rate * (1 / 2) ^ Suc k, new_ll, True)))"

text \<open>The same for one iteration of the outer loop that reaches its \<open>yield\<close> with the
  value \<open>v\<close>.\<close>

definition yield_post :: "model \<Rightarrow> gen \<Rightarrow> real \<Rightarrow> model \<Rightarrow> gen \<Rightarrow> bool" where
  "yield_post m g v m' g' \<longleftrightarrow>
     (\<exists>gu gv k.
        gradient m = Inr (gu, gv)
        \<and> log_likelihood m (step_to (users m) gu (g_lr g * (1 / 2) ^ k))
                            (step_to (items m) gv (g_lr g * (1 / 2) ^ k)) = Inr v
        \<and> (if g_old_ll g < v
            then m' = m\<lparr> users := step_to (users m) gu (g_lr g * (1 / 2) ^ k),
                           items := step_to (items m) gv (g_lr g * (1 / 2) ^ k) \<rparr>
               \<and> g' = \<lparr> g_lr = g_lr g * (1 / 2) ^ k * (5 / 4), g_old_ll = v,
                         g_converged = (v - g_old_ll g < stop_thresh m) \<rparr>
            else m' = m
               \<and> g_lr g * (1 / 2) ^ Suc k < min_learning_rate m
               \<and> g' = \<lparr> g_lr = g_lr g * (1 / 2) ^ Suc k, g_old_ll = v, g_converged = True \<rparr>))"

text \<open>A proposal at the rate \<open>rate\<close> is rejected: its log-likelihood is computed and does not
  exceed \<open>old_ll\<close>, so the inner loop takes its \<open>else\<close> branch and halves the rate.\<close>

definition rejected_proposal :: "model \<Rightarrow> matrix \<Rightarrow> matrix \<Rightarrow> real \<Rightarrow> real \<Rightarrow> bool" where
  "rejected_proposal self gu gv old_ll rate \<longleftrightarrow>
     (case log_likelihood self (step_to (users self) gu rate) (step_to (items self) gv rate) of
        Inl e \<Rightarrow> False
      | Inr new_ll \<Rightarrow> \<not> old_ll < new_ll)"

text \<open>Starting at \<open>rate\<close> the inner loop goes round \<open>k\<close> times without leaving: each of the
  \<open>k\<close> proposals, at the rates \<open>rate\<close>, \<open>rate / 2\<close>, ..., is rejected, and the rate halved after
  it is not below the minimum, so the loop does not \<open>break\<close>.\<close>

fun retried :: "model \<Rightarrow> matrix \<Rightarrow> matrix \<Rightarrow> real \<Rightarrow> real \<Rightarrow> nat \<Rightarrow> bool" where
  "retried self gu gv old_ll rate 0 \<longleftrightarrow> True"
| "retried self gu gv old_ll rate (Suc k) \<longleftrightarrow>
     rejected_proposal self gu gv old_ll rate
     \<and> \<not> rate * (1 / 2) < min_learning_rate self
     \<and> retried self gu gv old_ll (rate * (1 / 2)) k"

text \<open>What the inner loop returns, with the rejected proposals counted: after \<open>k\<close> such
  rounds the proposal at the rate \<open>rate * (1/2) ^ k\<close> has the log-likelihood \<open>new_ll\<close>; either
  it is accepted and the rate leaves as \<open>rate * (1/2) ^ k * (5/4)\<close>, or it is rejected too, the
  rate halved once more is below the minimum, and leaves as \<open>rate * (1/2) ^ (k + 1)\<close>.\<close>

definition rate_post ::
  "model \<Rightarrow> matrix \<Rightarrow> matrix \<Rightarrow> real \<Rightarrow> real \<Rightarrow> (error + model \<times> real \<times> real \<times> bool) \<Rightarrow> bool" where
  "rate_post self gu gv rate old_ll y \<longleftrightarrow>
     (\<exists>e. y = Inl e) \<or>
     (\<exists>k self' rate' new_ll conv.
        y = Inr (self', rate', new_ll, conv)
        \<and> retried self gu gv old_ll rate k
        \<and> log_likelihood self (step_to (users self) gu (rate * (1 / 2) ^ k))
                            (step_to (items self) gv (rate * (1 / 2) ^ k)) = Inr new_ll
        \<and> (if old_ll < new_ll then rate' = rate * (1 / 2) ^ k * (5 / 4)
            else rate * (1 / 2) ^ Suc k < min_learning_rate self
               \<and> rate' = rate * (1 / 2) ^ Suc k))"

subsection \<open>Statements about matrices and the likelihood\<close>

text \<open>The dense \<open>n\<close> by \<open>c\<close> matrix with given entries, and the entry \<open>(i, j)\<close> of the
  product of \<open>U\<close> with the transpose of \<open>V\<close>, both with rows of \<open>d\<close> entries.\<close>

definition matrix_of :: "nat \<Rightarrow> nat \<Rightarrow> (nat \<Rightarrow> nat \<Rightarrow> real) \<Rightarrow> matrix" where
  "matrix_of n c f = map (\<lambda>i. map (\<lambda>j. f i j) [0..<c]) [0..<n]"

definition product_entry :: "matrix \<Rightarrow> matrix \<Rightarrow> nat \<Rightarrow> nat \<Rightarrow> nat \<Rightarrow> real" where
  "product_entry U V d i j = (\<Sum>k<d. U ! i ! k * V ! j ! k)"

text \<open>The prediction \<open>U[i] \<cdot> V[j]\<close> for a rating row \<open>[i, j, r]\<close>, the sum of the squared
  errors over the ratings, and the squared Frobenius norm.\<close>

definition predicted_rating :: "matrix \<Rightarrow> matrix \<Rightarrow> vec \<Rightarrow> real" where
  "predicted_rating U V r = dot_sum (U ! nat (py_int (r ! 0))) (V ! nat (py_int (r ! 1)))"

definition squared_error :: "matrix \<Rightarrow> matrix \<Rightarrow> matrix \<Rightarrow> real" where
  "squared_error rs U V = (\<Sum>r\<leftarrow>rs. (r ! 2 - predicted_rating U V r)\<^sup>2)"

definition frobenius_sq :: "matrix \<Rightarrow> real" where
  "frobenius_sq M = sum_list (map (\<lambda>x. x\<^sup>2) (concat M))"

text \<open>The value the specification gives for \<open>log_likelihood\<close>, as its claim C1 words
  it: both penalty terms are squared Frobenius norms of the row factors. This definition
  follows the specification, not the source; \<open>log_likelihood\<close> above follows the
  source.\<close>

definition claimed_log_likelihood :: "model \<Rightarrow> matrix \<Rightarrow> matrix \<Rightarrow> real" where
  "claimed_log_likelihood self U V =
     - squared_error (ratings self) U V / (2 * sigma_sq self)
     - frobenius_sq U / (2 * sigma_u_sq self)
     - frobenius_sq U / (2 * sigma_v_sq self)"

text \<open>A rating row whose indices address rows of \<open>U\<close> and \<open>V\<close> of one length.\<close>

definition rating_in_range :: "matrix \<Rightarrow> matrix \<Rightarrow> vec \<Rightarrow> bool" where
  "rating_in_range U V r \<longleftrightarrow>
     length r = 3
     \<and> 0 \<le> py_int (r ! 0) \<and> py_int (r ! 0) < int (length U)
     \<and> 0 \<le> py_int (r ! 1) \<and> py_int (r ! 1) < int (length V)
     \<and> length (U ! nat (py_int (r ! 0))) = length (V ! nat (py_int (r ! 1)))"

subsection \<open>Example objects\<close>

text \<open>The 2 by 2 example of the specification: three ratings, one latent dimension, and
  the object \<open>__init__\<close> builds from them when every random draw is 1/2.\<close>

definition example_ratings :: matrix where
  "example_ratings = [[0, 0, 5], [0, 1, 3], [1, 0, 4]]"

definition example_model :: model where
  "example_model =
     \<lparr> latent_d = 1, num_users = 2, num_items = 2,
       learning_rate = 1 / 10000, min_learning_rate = 1 / 10000000000, stop_thresh = 1 / 100,
       sigma_sq = 1, sigma_u_sq = 10, sigma_v_sq = 10,
       ratings = [[0, 0, 5], [0, 1, 3], [1, 0, 4]],
       users = [[1 / 2], [1 / 2]], items = [[1 / 2], [1 / 2]],
       rated = {(0, 0), (0, 1), (1, 0)}, unrated = {(1, 1)} \<rparr>"

text \<open>Two objects with one user and one item: \<open>__init__\<close> on the rating \<open>(0, 0, 1)\<close> with
  every random draw 1/2, and on the rating \<open>(0, 0, 0)\<close> with every random draw 0; the
  generator states of \<open>fit_lls\<close> on them before and after the first \<open>yield\<close>.\<close>

definition unit_model :: model where
  "unit_model =
     \<lparr> latent_d = 1, num_users = 1, num_items = 1,
       learning_rate = 1 / 10000, min_learning_rate = 1 / 10000000000, stop_thresh = 1 / 100,
       sigma_sq = 1, sigma_u_sq = 10, sigma_v_sq = 10,
       ratings = [[0, 0, 1]], users = [[1 / 2]], items = [[1 / 2]],
       rated = {(0, 0)}, unrated = {} \<rparr>"

definition flat_model :: model where
  "flat_model =
     \<lparr> latent_d = 1, num_users = 1, num_items = 1,
       learning_rate = 1 / 10000, min_learning_rate = 1 / 10000000000, stop_thresh = 1 / 100,
       sigma_sq = 1, sigma_u_sq = 10, sigma_v_sq = 10,
       ratings = [[0, 0, 0]], users = [[0]], items = [[0]],
       rated = {(0, 0)}, unrated = {} \<rparr>"

definition unit_gen0 :: gen where
  "unit_gen0 = \<lparr> g_lr = 1 / 10000, g_old_ll = - (53 / 160), g_converged = False \<rparr>"

definition unit_ll1 :: real where
  "unit_ll1 = - (16958918386481757628561 / 51200000000000000000000)"

definition unit_model1 :: model where
  "unit_model1 = unit_model\<lparr> users := [[200013 / 400000]], items := [[200013 / 400000]] \<rparr>"

definition unit_gen1 :: gen where
  "unit_gen1 = \<lparr> g_lr = 1 / 8000, g_old_ll = unit_ll1, g_converged = True \<rparr>"

definition flat_gen0 :: gen where
  "flat_gen0 = \<lparr> g_lr = 1 / 10000, g_old_ll = 0, g_converged = False \<rparr>"

definition flat_gen1 :: gen where
  "flat_gen1 = \<lparr> g_lr = 1 / 10485760000, g_old_ll = 0, g_converged = True \<rparr>"

text \<open>The first of them with the attribute \<open>learning_rate\<close> set to 8: the proposals of
  \<open>fit_lls\<close> at the rates 8 and 4 overshoot and are rejected, the one at the rate 2 is
  accepted. The generator states before and after this first \<open>yield\<close>.\<close>

definition eager_model :: model where
  "eager_model = unit_model\<lparr> learning_rate := 8 \<rparr>"

definition eager_gen0 :: gen where
  "eager_gen0 = \<lparr> g_lr = 8, g_old_ll = - (53 / 160), g_converged = False \<rparr>"

definition eager_ll1 :: real where
  "eager_ll1 = - (53441 / 320000)"

definition eager_model1 :: model where
  "eager_model1 = eager_model\<lparr> users := [[23 / 20]], items := [[23 / 20]] \<rparr>"

definition eager_gen1 :: gen where
  "eager_gen1 = \<lparr> g_lr = 5 / 2, g_old_ll = eager_ll1, g_converged = False \<rparr>"

section \<open>Properties\<close>

subsection \<open>Serialization\<close>

lemma bind_err_Inr [simp]: "bind_err (Inr x) f = f x"
  by (simp add: bind_err_def)

lemma bind_err_Inl [simp]: "bind_err (Inl e) f = Inl e"
  by (simp add: bind_err_def)

text \<open>
  Claim C7. The dictionary of \<open>__getstate__\<close> has one item for each of the fourteen
  fields of the object, and \<open>__setstate__\<close> with the dictionary of a model \<open>m\<close>, applied
  to any model \<open>m'\<close>, succeeds and leaves an object equal to \<open>m\<close> in every field.
\<close>

theorem getstate_setstate_roundtrip:
  "map fst (getstate m) =
     [''latent_d'', ''num_users'', ''num_items'', ''learning_rate'', ''min_learning_rate'',
      ''stop_thresh'', ''sigma_sq'', ''sigma_u_sq'', ''sigma_v_sq'', ''ratings'', ''users'',
      ''items'', ''rated'', ''unrated'']
   \<and> map_of (getstate m) ''latent_d'' = Some (VInt (latent_d m))
   \<and> map_of (getstate m) ''num_users'' = Some (VInt (num_users m))
   \<and> map_of (getstate m) ''num_items'' = Some (VInt (num_items m))
   \<and> map_of (getstate m) ''learning_rate'' = Some (VFloat (learning_rate m))
   \<and> map_of (getstate m) ''min_learning_rate'' = Some (VFloat (min_learning_rate m))
   \<and> map_of (getstate m) ''stop_thresh'' = Some (VFloat (stop_thresh m))
   \<and> map_of (getstate m) ''sigma_sq'' = Some (VFloat (sigma_sq m))
   \<and> map_of (getstate m) ''sigma_u_sq'' = Some (VFloat (sigma_u_sq m))
   \<and> map_of (getstate m) ''sigma_v_sq'' = Some (VFloat (sigma_v_sq m))
   \<and> map_of (getstate m) ''ratings'' = Some (VArray (ratings m))
   \<and> map_of (getstate m) ''users'' = Some (VArray (users m))
   \<and> map_of (getstate m) ''items'' = Some (VArray (items m))
   \<and> map_of (getstate m) ''rated'' = Some (VSet (rated m))
   \<and> map_of (getstate m) ''unrated'' = Some (VSet (unrated m))
   \<and> setstate m' (getstate m) = Inr m"
  by (cases m, cases m')
     (simp add: getstate_def setattr_def as_int_def as_float_def as_array_def as_set_def)

subsection \<open>Facts about the helpers\<close>

lemma bind_err_eq_Inr: "bind_err r f = Inr y \<longleftrightarrow> (\<exists>x. r = Inr x \<and> f x = Inr y)"
  by (cases r) simp_all

lemma np_max_Cons: "np_max (x # xs) = Inr (Max (set (x # xs)))"
  using Max.set_eq_fold[of x xs] by (simp add: np_max_def)

lemma np_max_nonempty: "xs \<noteq> [] \<Longrightarrow> np_max xs = Inr (Max (set xs))"
  by (cases xs) (simp_all add: np_max_Cons del: set_simps)

lemma np_max_Nil: "np_max [] = Inl ValueError_zero_size_max"
  by (simp add: np_max_def)

lemma grid_image:
  "grid n m = (\<lambda>(i, j). (real_of_int i, real_of_int j)) ` ({0..n - 1} \<times> {0..m - 1})"
  by (auto simp: grid_def)

lemma grid_iff:
  "(x, y) \<in> grid n m \<longleftrightarrow> (\<exists>i j. x = real_of_int i \<and> y = real_of_int j \<and> 0 \<le> i \<and> i < n \<and> 0 \<le> j \<and> j < m)"
  unfolding grid_image by force

lemma py_int_of_int [simp]: "py_int (real_of_int k) = k"
  by (simp add: py_int_def)

lemma py_int_index: "is_index x \<Longrightarrow> real_of_int (py_int x) = x"
  by (simp add: is_index_def py_int_def)

subsection \<open>The rated and the unrated set\<close>

text \<open>What a successful \<open>__init__\<close> has checked and what it stores.\<close>

lemma new_model_Inr:
  assumes "new_model rating_tuples d rs = Inr m"
  shows "rating_tuples \<noteq> []"
    and "list_all (\<lambda>r. length r = 3) rating_tuples"
    and "0 \<le> d"
    and "0 \<le> top_index 0 rating_tuples"
    and "0 \<le> top_index 1 rating_tuples"
    and "m = cinit\<lparr> latent_d := d, ratings := rating_tuples,
                  num_users := top_index 0 rating_tuples, num_items := top_index 1 rating_tuples,
                  rated := index_pairs rating_tuples,
                  unrated := grid (top_index 0 rating_tuples) (top_index 1 rating_tuples)
                             - index_pairs rating_tuples,
                  users := random_matrix rs 0 (nat (top_index 0 rating_tuples)) (nat d),
                  items := random_matrix rs (nat (top_index 0 rating_tuples) * nat d)
                             (nat (top_index 1 rating_tuples)) (nat d) \<rparr>"
proof -
  show ne: "rating_tuples \<noteq> []"
    using assms by (auto simp: new_model_def init_def column_def np_max_Nil split: if_splits)
  show sh: "list_all (\<lambda>r. length r = 3) rating_tuples"
    using assms by (auto simp: new_model_def init_def split: if_splits)
  have c0: "np_max (column 0 rating_tuples) = Inr (Max (set (column 0 rating_tuples)))"
    and c1: "np_max (column 1 rating_tuples) = Inr (Max (set (column 1 rating_tuples)))"
    using ne by (simp_all add: np_max_nonempty column_def)
  have eq: "bind_err (np_random rs 0 (top_index 0 rating_tuples) d) (\<lambda>us.
            bind_err (np_random rs (nat (top_index 0 rating_tuples) * nat d) (top_index 1 rating_tuples) d) (\<lambda>vs.
              Inr (cinit\<lparr> latent_d := d, ratings := rating_tuples,
                         num_users := top_index 0 rating_tuples, num_items := top_index 1 rating_tuples,
                         rated := index_pairs rating_tuples,
                         unrated := grid (top_index 0 rating_tuples) (top_index 1 rating_tuples)
                             - index_pairs rating_tuples,
                         users := us, items := vs \<rparr>))) = Inr m"
    using assms sh unfolding new_model_def init_def c0 c1 top_index_def Let_def by simp
  then show "0 \<le> d" "0 \<le> top_index 0 rating_tuples" "0 \<le> top_index 1 rating_tuples"
    by (auto simp: bind_err_eq_Inr np_random_def split: if_splits)
  with eq show "m = cinit\<lparr> latent_d := d, ratings := rating_tuples,
                  num_users := top_index 0 rating_tuples, num_items := top_index 1 rating_tuples,
                  rated := index_pairs rating_tuples,
                  unrated := grid (top_index 0 rating_tuples) (top_index 1 rating_tuples)
                             - index_pairs rating_tuples,
                  users := random_matrix rs 0 (nat (top_index 0 rating_tuples)) (nat d),
                  items := random_matrix rs (nat (top_index 0 rating_tuples) * nat d)
                             (nat (top_index 1 rating_tuples)) (nat d) \<rparr>"
    by (simp add: np_random_def)
qed

text \<open>\<open>add_ratings\<close> either raises and leaves the object as it was, or moves the new
  pairs from the unrated to the rated set and appends the rows.\<close>

lemma add_ratings_outcome:
  "(\<exists>e. add_ratings self extra = (Some e, self)) \<or>
   (new_items_of (ndmin2 extra) \<subseteq> unrated self \<and>
    add_ratings self extra =
      (None, self\<lparr> rated := rated self \<union> new_items_of (ndmin2 extra),
                    unrated := unrated self - new_items_of (ndmin2 extra),
                    ratings := ratings self @ ndmin2 extra \<rparr>))"
  unfolding add_ratings_def Let_def by (simp split: sum.split)

lemma add_ratings_success:
  assumes "add_ratings self extra = (None, self')"
  shows "new_items_of (ndmin2 extra) \<subseteq> unrated self"
    and "self' = self\<lparr> rated := rated self \<union> new_items_of (ndmin2 extra),
                       unrated := unrated self - new_items_of (ndmin2 extra),
                       ratings := ratings self @ ndmin2 extra \<rparr>"
  using add_ratings_outcome[of self extra] assms by auto


lemma is_index_Max:
  assumes "xs \<noteq> []" "list_all is_index xs"
  shows "is_index (Max (set xs))"
proof -
  have "Max (set xs) \<in> set xs" using assms(1) by (intro Max_in) simp_all
  with assms(2) show ?thesis by (simp add: list_all_iff)
qed

lemma top_index_bound:
  assumes "rs \<noteq> []" "list_all (\<lambda>r. is_index (r ! c)) rs" "r \<in> set rs"
  shows "\<exists>i. r ! c = real_of_int i \<and> 0 \<le> i \<and> i < top_index c rs"
proof -
  let ?xs = "column c rs"
  have ne: "?xs \<noteq> []" and all: "list_all is_index ?xs"
    using assms(1,2) by (simp_all add: column_def list_all_iff)
  from is_index_Max[OF ne all] have mx: "is_index (Max (set ?xs))" .
  have top: "top_index c rs = \<lfloor>Max (set ?xs)\<rfloor> + 1"
  proof -
    from mx obtain j where j: "Max (set ?xs) = real_of_int j" "0 \<le> j"
      unfolding is_index_def by (metis of_int_0_le_iff)
    have "py_int (real_of_int j + 1) = j + 1"
      using py_int_of_int[of "j + 1"] by simp
    then show ?thesis by (simp add: top_index_def j(1))
  qed
  have "r ! c \<in> set ?xs" using assms(3) by (simp add: column_def)
  then have le: "r ! c \<le> Max (set ?xs)" by simp
  have ri: "is_index (r ! c)" using assms(2,3) by (simp add: list_all_iff)
  then obtain k where k: "r ! c = real_of_int k" "0 \<le> k"
    unfolding is_index_def by (metis of_int_0_le_iff)
  have "\<lfloor>r ! c\<rfloor> \<le> \<lfloor>Max (set ?xs)\<rfloor>" using le by (rule floor_mono)
  then have "k < top_index c rs" using k(1) top by simp
  with k show ?thesis by blast
qed

lemma new_model_partitioned:
  assumes "new_model rating_tuples d rs = Inr m" "valid_indices rating_tuples"
  shows "partitioned m"
proof -
  note c = new_model_Inr[OF assms(1)]
  have v0: "list_all (\<lambda>r. is_index (r ! 0)) rating_tuples"
    and v1: "list_all (\<lambda>r. is_index (r ! 1)) rating_tuples"
    using assms(2) by (simp_all add: valid_indices_def list_all_iff)
  have sub: "index_pairs rating_tuples \<subseteq> grid (top_index 0 rating_tuples) (top_index 1 rating_tuples)"
  proof
    fix p assume "p \<in> index_pairs rating_tuples"
    then obtain r where r: "r \<in> set rating_tuples" and p: "p = (r ! 0, r ! 1)"
      by (auto simp: index_pairs_def)
    from top_index_bound[OF c(1) v0 r] top_index_bound[OF c(1) v1 r]
    show "p \<in> grid (top_index 0 rating_tuples) (top_index 1 rating_tuples)"
      unfolding p grid_iff by blast
  qed
  show ?thesis
    unfolding partitioned_def by (subst (1 2 3 4 5 6) c(6)) (use sub in \<open>auto simp: cinit_def\<close>)
qed

lemma add_ratings_partitioned:
  assumes "partitioned m" "add_ratings m extra = (None, m')"
  shows "partitioned m'"
proof -
  let ?new = "new_items_of (ndmin2 extra)"
  have sub: "?new \<subseteq> unrated m" and m': "m' = m\<lparr> rated := rated m \<union> ?new,
        unrated := unrated m - ?new, ratings := ratings m @ ndmin2 extra \<rparr>"
    using add_ratings_success[OF assms(2)] by blast+
  from assms(1) sub show ?thesis unfolding partitioned_def m' by auto
qed

text \<open>
  Claim C4. For an object built by \<open>__init__\<close> from ratings whose indices are 0-based
  integers, the rated and the unrated set are disjoint and their union is the grid
  \<open>[0, num_users) \<times> [0, num_items)\<close>; and a successful \<open>add_ratings\<close> on an object
  with this property gives an object with this property.
\<close>

theorem rated_unrated_partition:
  "(new_model rating_tuples d rs = Inr m\<^sub>0 \<longrightarrow> valid_indices rating_tuples \<longrightarrow> partitioned m\<^sub>0)
   \<and> (partitioned m \<longrightarrow> add_ratings m extra = (None, m') \<longrightarrow> partitioned m')"
  using new_model_partitioned add_ratings_partitioned by blast

subsection \<open>Failing calls of \<open>add_ratings\<close>\<close>

lemma grid_2_2: "grid 2 2 = {(0, 0), (0, 1), (1, 0), (1, 1)}"
  by (auto simp: grid_def upto_rec1)

lemma new_model_example:
  "new_model example_ratings 1 (\<lambda>k. 1 / 2) = Inr example_model"
  by (simp add: new_model_def init_def cinit_def example_ratings_def example_model_def
      np_max_def column_def py_int_def index_pairs_def grid_2_2 np_random_def random_matrix_def upt_rec)

lemma valid_example_ratings: "valid_indices example_ratings"
  by (simp add: valid_indices_def example_ratings_def is_index_def)


text \<open>For a batch with rows of the rating arity, \<open>add_ratings\<close> is the chain of its two
  assertions and its duplicate test.\<close>

lemma add_ratings_checked:
  assumes sh: "list_all (\<lambda>r. length r = ncols (ratings m)) extra" and ne: "extra \<noteq> []"
    and c2: "2 \<le> ncols (ratings m)"
  shows "add_ratings m extra =
     (if \<not> list_all (\<lambda>r. r ! 0 + 1 \<le> real_of_int (num_users m)) extra then (Some AssertionError, m)
      else if \<not> list_all (\<lambda>r. r ! 1 + 1 \<le> real_of_int (num_items m)) extra then (Some AssertionError, m)
      else if \<not> new_items_of extra \<subseteq> unrated m then (Some ValueError_already_rated, m)
      else (None, m\<lparr> rated := rated m \<union> new_items_of extra,
                      unrated := unrated m - new_items_of extra,
                      ratings := ratings m @ extra \<rparr>))"
proof -
  have n2: "ndmin2 extra = extra" using ne by (simp add: ndmin2_def)
  have m0: "np_max (map (\<lambda>x. x + 1) (column 0 extra)) = Inr (Max (set (map (\<lambda>x. x + 1) (column 0 extra))))"
    and m1: "np_max (map (\<lambda>x. x + 1) (column 1 extra)) = Inr (Max (set (map (\<lambda>x. x + 1) (column 1 extra))))"
    using ne by (simp_all add: np_max_nonempty column_def)
  have l0: "Max (set (map (\<lambda>x. x + 1) (column 0 extra))) \<le> real_of_int (num_users m)
      \<longleftrightarrow> list_all (\<lambda>r. r ! 0 + 1 \<le> real_of_int (num_users m)) extra"
    and l1: "Max (set (map (\<lambda>x. x + 1) (column 1 extra))) \<le> real_of_int (num_items m)
      \<longleftrightarrow> list_all (\<lambda>r. r ! 1 + 1 \<le> real_of_int (num_items m)) extra"
    using ne by (simp_all add: column_def list_all_iff)
  show ?thesis
    unfolding add_ratings_def Let_def n2 m0 m1 using sh c2 by (simp add: l0 l1 del: set_map One_nat_def)
qed





text \<open>Claim C4 on the 2 by 2 example, which \<open>__init__\<close> builds, and on the object after
  rating the last cell \<open>(1, 1)\<close>.\<close>

theorem rated_unrated_partition_witness:
  "new_model example_ratings 1 (\<lambda>k. 1 / 2) = Inr example_model \<and> valid_indices example_ratings
   \<and> partitioned example_model
   \<and> add_ratings example_model [[1, 1, 2]] =
       (None, example_model\<lparr> rated := {(0, 0), (0, 1), (1, 0), (1, 1)}, unrated := {},
                              ratings := example_ratings @ [[1, 1, 2]] \<rparr>)
   \<and> partitioned (example_model\<lparr> rated := {(0, 0), (0, 1), (1, 0), (1, 1)}, unrated := {},
                              ratings := example_ratings @ [[1, 1, 2]] \<rparr>)"
proof -
  have h1: "new_model example_ratings 1 (\<lambda>k. 1 / 2) = Inr example_model"
    by (rule new_model_example)
  have h2: "valid_indices example_ratings" by (rule valid_example_ratings)
  have h3: "partitioned example_model"
    by (rule rated_unrated_partition[THEN conjunct1, rule_format, OF h1 h2])
  have h4: "add_ratings example_model [[1, 1, 2]] =
       (None, example_model\<lparr> rated := {(0, 0), (0, 1), (1, 0), (1, 1)}, unrated := {},
                              ratings := example_ratings @ [[1, 1, 2]] \<rparr>)"
    by (auto simp: add_ratings_def example_model_def example_ratings_def ncols_def ndmin2_def
        column_def np_max_def new_items_of_def py_int_def)
  have h5: "partitioned (example_model\<lparr> rated := {(0, 0), (0, 1), (1, 0), (1, 1)}, unrated := {},
                              ratings := example_ratings @ [[1, 1, 2]] \<rparr>)"
    by (rule rated_unrated_partition[THEN conjunct2, rule_format, OF h3 h4])
  from h1 h2 h3 h4 h5 show ?thesis by blast
qed

subsection \<open>The inner loop of \<open>fit_lls\<close>\<close>

lemma log_likelihood_factors_update [simp]:
  "log_likelihood (self\<lparr> users := a, items := b \<rparr>) us vs = log_likelihood self us vs"
  by (simp add: log_likelihood_def)

lemma line_search_unfold:
  "line_search self gu gv rate old_ll =
     (case log_likelihood self (step_to (users self) gu rate) (step_to (items self) gv rate) of
        Inl e \<Rightarrow> Some (Inl e)
      | Inr new_ll \<Rightarrow>
          if old_ll < new_ll
          then Some (Inr (self\<lparr> users := step_to (users self) gu rate,
                                items := step_to (items self) gv rate \<rparr>,
                          rate * (5 / 4), new_ll, new_ll - old_ll < stop_thresh self))
          else if rate * (1 / 2) < min_learning_rate self
          then Some (Inr (self, rate * (1 / 2), new_ll, True))
          else line_search self gu gv (rate * (1 / 2)) old_ll)"
  unfolding step_to_def by (subst line_search.simps) (simp only: Let_def)

lemma line_search_post_step:
  assumes IH: "\<And>y'. f self gu gv (rate * (1 / 2)) old_ll = Some y' \<Longrightarrow>
                 line_search_post self gu gv (rate * (1 / 2)) old_ll y'"
    and body: "(case log_likelihood self (step_to (users self) gu rate) (step_to (items self) gv rate) of
        Inl e \<Rightarrow> Some (Inl e)
      | Inr new_ll \<Rightarrow>
          if old_ll < new_ll
          then Some (Inr (self\<lparr> users := step_to (users self) gu rate,
                                items := step_to (items self) gv rate \<rparr>,
                          rate * (5 / 4), new_ll, new_ll - old_ll < stop_thresh self))
          else if rate * (1 / 2) < min_learning_rate self
          then Some (Inr (self, rate * (1 / 2), new_ll, True))
          else f self gu gv (rate * (1 / 2)) old_ll) = Some y"
  shows "line_search_post self gu gv rate old_ll y"
proof (cases "log_likelihood self (step_to (users self) gu rate) (step_to (items self) gv rate)")
  case (Inl e)
  with body have "y = Inl e" by simp
  then show ?thesis unfolding line_search_post_def by blast
next
  case (Inr new_ll)
  consider (acc) "old_ll < new_ll"
    | (stop) "\<not> old_ll < new_ll" "rate * (1 / 2) < min_learning_rate self"
    | (retry) "\<not> old_ll < new_ll" "\<not> rate * (1 / 2) < min_learning_rate self"
    by blast
  then show ?thesis
  proof cases
    case acc
    with body Inr have "y = Inr (self\<lparr> users := step_to (users self) gu rate,
        items := step_to (items self) gv rate \<rparr>,
        rate * (5 / 4), new_ll, new_ll - old_ll < stop_thresh self)"
      by simp
    with acc Inr show ?thesis
      unfolding line_search_post_def
      by (intro disjI2 exI[of _ 0] exI[of _ new_ll]) simp
  next
    case stop
    with body Inr have "y = Inr (self, rate * (1 / 2), new_ll, True)"
      by simp
    with stop Inr show ?thesis
      unfolding line_search_post_def
      by (intro disjI2 exI[of _ 0] exI[of _ new_ll]) simp
  next
    case retry
    with body Inr have "f self gu gv (rate * (1 / 2)) old_ll = Some y"
      by simp
    from IH[OF this] have "line_search_post self gu gv (rate * (1 / 2)) old_ll y" .
    then show ?thesis
      unfolding line_search_post_def
    proof (elim disjE exE)
      fix e assume "y = Inl e" then show "(\<exists>e. y = Inl e) \<or> (\<exists>k new_ll.
        log_likelihood self (step_to (users self) gu (rate * (1 / 2) ^ k))
                            (step_to (items self) gv (rate * (1 / 2) ^ k)) = Inr new_ll
        \<and> (old_ll < new_ll
             \<and> y = Inr (self\<lparr> users := step_to (users self) gu (rate * (1 / 2) ^ k),
                               items := step_to (items self) gv (rate * (1 / 2) ^ k) \<rparr>,
                         rate * (1 / 2) ^ k * (5 / 4), new_ll, new_ll - old_ll < stop_thresh self)
           \<or> \<not> old_ll < new_ll \<and> rate * (1 / 2) ^ Suc k < min_learning_rate self
             \<and> y = Inr (self, rate * (1 / 2) ^ Suc k, new_ll, True)))" by blast
    next
      fix k nl
      assume a: "log_likelihood self (step_to (users self) gu (rate * (1 / 2) * (1 / 2) ^ k))
                            (step_to (items self) gv (rate * (1 / 2) * (1 / 2) ^ k)) = Inr nl
        \<and> (old_ll < nl
             \<and> y = Inr (self\<lparr> users := step_to (users self) gu (rate * (1 / 2) * (1 / 2) ^ k),
                               items := step_to (items self) gv (rate * (1 / 2) * (1 / 2) ^ k) \<rparr>,
                         rate * (1 / 2) * (1 / 2) ^ k * (5 / 4), nl, nl - old_ll < stop_thresh self)
           \<or> \<not> old_ll < nl \<and> rate * (1 / 2) * (1 / 2) ^ Suc k < min_learning_rate self
             \<and> y = Inr (self, rate * (1 / 2) * (1 / 2) ^ Suc k, nl, True))"
      have e: "rate * (1 / 2) * (1 / 2) ^ j = rate * (1 / 2) ^ Suc j" for j
        by simp
      from a show "(\<exists>e. y = Inl e) \<or> (\<exists>k new_ll.
        log_likelihood self (step_to (users self) gu (rate * (1 / 2) ^ k))
                            (step_to (items self) gv (rate * (1 / 2) ^ k)) = Inr new_ll
        \<and> (old_ll < new_ll
             \<and> y = Inr (self\<lparr> users := step_to (users self) gu (rate * (1 / 2) ^ k),
                               items := step_to (items self) gv (rate * (1 / 2) ^ k) \<rparr>,
                         rate * (1 / 2) ^ k * (5 / 4), new_ll, new_ll - old_ll < stop_thresh self)
           \<or> \<not> old_ll < new_ll \<and> rate * (1 / 2) ^ Suc k < min_learning_rate self
             \<and> y = Inr (self, rate * (1 / 2) ^ Suc k, new_ll, True)))"
        unfolding e by (intro disjI2 exI[of _ "Suc k"] exI[of _ nl])
    qed
  qed
qed

lemma line_search_result:
  assumes "line_search self gu gv rate old_ll = Some y"
  shows "line_search_post self gu gv rate old_ll y"
proof (rule line_search.raw_induct[where P = line_search_post, OF _ assms])
  fix f self gu gv rate old_ll y
  assume IH: "\<And>self gu gv rate old_ll y. f self gu gv rate old_ll = Some y \<Longrightarrow>
                 line_search_post self gu gv rate old_ll y"
    and body: "(let new_users = mat_add (users self) (mat_scale rate gu);
          new_items = mat_add (items self) (mat_scale rate gv)
      in case log_likelihood self new_users new_items of
         Inl e \<Rightarrow> Some (Inl e)
         | Inr new_ll \<Rightarrow>
             if old_ll < new_ll
             then Some
                   (Inr (self\<lparr>users := new_users, items := new_items\<rparr>,
                         rate * (5 / 4), new_ll,
                         new_ll - old_ll < stop_thresh self))
             else if rate * (1 / 2) < min_learning_rate self
                  then Some (Inr (self, rate * (1 / 2), new_ll, True))
                  else f self gu gv (rate * (1 / 2)) old_ll) = Some y"
  have b: "(case log_likelihood self (mat_add (users self) (mat_scale rate gu))
                                       (mat_add (items self) (mat_scale rate gv)) of
         Inl e \<Rightarrow> Some (Inl e)
         | Inr new_ll \<Rightarrow>
             if old_ll < new_ll
             then Some
                   (Inr (self\<lparr>users := mat_add (users self) (mat_scale rate gu),
                              items := mat_add (items self) (mat_scale rate gv)\<rparr>,
                         rate * (5 / 4), new_ll,
                         new_ll - old_ll < stop_thresh self))
             else if rate * (1 / 2) < min_learning_rate self
                  then Some (Inr (self, rate * (1 / 2), new_ll, True))
                  else f self gu gv (rate * (1 / 2)) old_ll) = Some y"
    using body unfolding Let_def .
  show "line_search_post self gu gv rate old_ll y"
    apply (rule line_search_post_step[where f = f, unfolded step_to_def])
     apply (erule IH)
    apply (rule b)
    done
qed

text \<open>With a positive minimum learning rate the inner loop ends: after enough halvings the
  rate is below the minimum.\<close>

lemma line_search_total_aux:
  assumes "0 < min_learning_rate self" "rate * (1 / 2) ^ n < min_learning_rate self"
  shows "\<exists>y. line_search self gu gv rate old_ll = Some y"
  using assms(2)
proof (induction n arbitrary: rate)
  case 0
  then have "rate * (1 / 2) < min_learning_rate self" using assms(1) by simp
  then show ?case
    by (subst line_search_unfold) (simp split: sum.split)
next
  case (Suc n)
  then have "rate * (1 / 2) * (1 / 2) ^ n < min_learning_rate self" by simp
  from Suc.IH[OF this] obtain y where "line_search self gu gv (rate * (1 / 2)) old_ll = Some y"
    by blast
  then show ?case
    by (subst line_search_unfold) (simp split: sum.split)
qed

lemma line_search_total:
  assumes "0 < min_learning_rate self"
  shows "\<exists>y. line_search self gu gv rate old_ll = Some y"
proof (cases "0 < rate")
  case False
  with assms have "rate * (1 / 2) ^ 0 < min_learning_rate self" by simp
  then show ?thesis by (rule line_search_total_aux[OF assms])
next
  case True
  with assms have "0 < min_learning_rate self / rate" by simp
  from real_arch_pow_inv[OF this, of "1 / 2"] obtain n
    where "(1 / 2) ^ n < min_learning_rate self / rate" by auto
  with True have "rate * (1 / 2) ^ n < min_learning_rate self"
    by (simp add: pos_less_divide_eq mult.commute)
  then show ?thesis by (rule line_search_total_aux[OF assms])
qed

subsection \<open>One step of \<open>fit_lls\<close>\<close>

lemma fit_lls_next_total:
  assumes "0 < min_learning_rate m"
  shows "\<exists>r. fit_lls_next (m, g) = Some r"
proof (cases "gradient m")
  case (Inl e)
  then show ?thesis by (simp add: fit_lls_next_def)
next
  case (Inr gs)
  obtain gu gv where gs: "gs = (gu, gv)" by (cases gs)
  from line_search_total[OF assms] obtain y
    where "line_search m gu gv (g_lr g) (g_old_ll g) = Some y" by blast
  with Inr gs show ?thesis
    by (cases y) (auto simp: fit_lls_next_def)
qed

lemma fit_lls_next_converged:
  "g_converged g \<Longrightarrow> fit_lls_next (m, g) = Some (StopIteration, m, g)"
  by (simp add: fit_lls_next_def)

lemma fit_lls_next_Yield:
  assumes "fit_lls_next (m, g) = Some (Yield v, m', g')"
  shows "\<not> g_converged g" and "yield_post m g v m' g'"
proof -
  show nc: "\<not> g_converged g" using assms by (auto simp: fit_lls_next_def)
  from assms nc obtain gu gv where gr: "gradient m = Inr (gu, gv)"
    by (cases "gradient m") (auto simp: fit_lls_next_def)
  from assms nc gr obtain y where ls: "line_search m gu gv (g_lr g) (g_old_ll g) = Some y"
    by (cases "line_search m gu gv (g_lr g) (g_old_ll g)") (auto simp: fit_lls_next_def)
  from assms nc gr ls obtain rate' conv
    where y: "y = Inr (m', rate', v, conv)" and g': "g' = \<lparr> g_lr = rate', g_old_ll = v, g_converged = conv \<rparr>"
    by (cases y) (auto simp: fit_lls_next_def)
  from line_search_result[OF ls] y obtain k new_ll where
    ll: "log_likelihood m (step_to (users m) gu (g_lr g * (1 / 2) ^ k))
                          (step_to (items m) gv (g_lr g * (1 / 2) ^ k)) = Inr new_ll"
    and d: "g_old_ll g < new_ll
             \<and> y = Inr (m\<lparr> users := step_to (users m) gu (g_lr g * (1 / 2) ^ k),
                            items := step_to (items m) gv (g_lr g * (1 / 2) ^ k) \<rparr>,
                         g_lr g * (1 / 2) ^ k * (5 / 4), new_ll, new_ll - g_old_ll g < stop_thresh m)
           \<or> \<not> g_old_ll g < new_ll \<and> g_lr g * (1 / 2) ^ Suc k < min_learning_rate m
             \<and> y = Inr (m, g_lr g * (1 / 2) ^ Suc k, new_ll, True)"
    unfolding line_search_post_def by blast
  from d y have v: "new_ll = v" by auto
  show "yield_post m g v m' g'"
    unfolding yield_post_def
    apply (rule exI[of _ gu], rule exI[of _ gv], rule exI[of _ k])
    using gr ll d y g' v by auto
qed

lemma fit_lls_next_no_yield:
  assumes "fit_lls_next (m, g) = Some (out, m', g')" "\<forall>v. out \<noteq> Yield v"
  shows "m' = m \<and> g' = g"
  using assms
  by (auto simp: fit_lls_next_def split: if_splits sum.splits option.splits prod.splits)

subsection \<open>The fitting sequence on the two 1 by 1 examples\<close>

lemma grid_1_1: "grid 1 1 = {(0, 0)}"
  by (auto simp: grid_def upto_rec1)

lemma new_model_unit: "new_model [[0, 0, 1]] 1 (\<lambda>k. 1 / 2) = Inr unit_model"
  by (simp add: new_model_def init_def cinit_def unit_model_def
      np_max_def column_def py_int_def index_pairs_def grid_1_1 np_random_def random_matrix_def upt_rec)

lemma new_model_flat: "new_model [[0, 0, 0]] 1 (\<lambda>k. 0) = Inr flat_model"
  by (simp add: new_model_def init_def cinit_def flat_model_def
      np_max_def column_def py_int_def index_pairs_def grid_1_1 np_random_def random_matrix_def upt_rec)

lemma np_linalg_norm_1x1: "np_linalg_norm [[x]] = \<bar>x\<bar>"
  by (simp add: np_linalg_norm_def)

lemma log_likelihood_unit:
  "log_likelihood unit_model [[x]] [[y]] = Inr (- (1 - x * y)\<^sup>2 / 2 - \<bar>x\<bar> / 20 - \<bar>x\<bar> / 20)"
  by (simp add: log_likelihood_def unit_model_def row_at_def py_index_def py_int_def np_dot_def
      dot_sum_def np_linalg_norm_1x1)

lemma log_likelihood_flat:
  "log_likelihood flat_model [[x]] [[y]] = Inr (- (0 - x * y)\<^sup>2 / 2 - \<bar>x\<bar> / 20 - \<bar>x\<bar> / 20)"
  by (simp add: log_likelihood_def flat_model_def row_at_def py_index_def py_int_def np_dot_def
      dot_sum_def np_linalg_norm_1x1)

lemma gradient_unit: "gradient unit_model = Inr ([[13 / 40]], [[13 / 40]])"
  by (simp add: gradient_def unit_model_def mat_neg_div_def py_index_def py_int_def
      np_dot_def dot_sum_def vec_add_def vec_scale_def)

lemma gradient_flat: "gradient flat_model = Inr ([[0]], [[0]])"
  by (simp add: gradient_def flat_model_def mat_neg_div_def py_index_def py_int_def
      np_dot_def dot_sum_def vec_add_def vec_scale_def)

lemma step_to_1x1: "step_to [[x]] [[d]] r = [[x + r * d]]"
  by (simp add: step_to_def mat_add_def mat_scale_def vec_add_def)

lemma fit_lls_start_unit:
  "fit_lls_start unit_model = Inr \<lparr> g_lr = 1 / 10000, g_old_ll = - (53 / 160), g_converged = False \<rparr>"
  by (simp add: fit_lls_start_def log_likelihood_self_def)
     (simp add: unit_model_def log_likelihood_unit[unfolded unit_model_def] power2_eq_square)

lemma fit_lls_start_flat:
  "fit_lls_start flat_model = Inr \<lparr> g_lr = 1 / 10000, g_old_ll = 0, g_converged = False \<rparr>"
  by (simp add: fit_lls_start_def log_likelihood_self_def)
     (simp add: flat_model_def log_likelihood_flat[unfolded flat_model_def])

lemma line_search_unit:
  "line_search unit_model [[13 / 40]] [[13 / 40]] (1 / 10000) (- (53 / 160)) =
     Some (Inr (unit_model\<lparr> users := [[200013 / 400000]], items := [[200013 / 400000]] \<rparr>,
                1 / 8000, - (16958918386481757628561 / 51200000000000000000000), True))"
proof -
  have u: "users unit_model = [[1 / 2]]" "items unit_model = [[1 / 2]]"
    "stop_thresh unit_model = 1 / 100"
    by (simp_all add: unit_model_def)
  show ?thesis
    by (subst line_search_unfold) (simp add: u step_to_1x1 log_likelihood_unit power2_eq_square)
qed

lemma line_search_flat_retry:
  assumes "\<not> rate * (1 / 2) < 1 / 10000000000"
  shows "line_search flat_model [[0]] [[0]] rate 0 = line_search flat_model [[0]] [[0]] (rate * (1 / 2)) 0"
proof -
  have u: "users flat_model = [[0]]" "items flat_model = [[0]]"
    "min_learning_rate flat_model = 1 / 10000000000"
    by (simp_all add: flat_model_def)
  show ?thesis
    by (subst line_search_unfold) (use assms in \<open>simp add: u step_to_1x1 log_likelihood_flat\<close>)
qed

lemma line_search_flat_stop:
  assumes "rate * (1 / 2) < 1 / 10000000000"
  shows "line_search flat_model [[0]] [[0]] rate 0 = Some (Inr (flat_model, rate * (1 / 2), 0, True))"
proof -
  have u: "users flat_model = [[0]]" "items flat_model = [[0]]"
    "min_learning_rate flat_model = 1 / 10000000000"
    by (simp_all add: flat_model_def)
  show ?thesis
    by (subst line_search_unfold) (use assms in \<open>simp add: u step_to_1x1 log_likelihood_flat\<close>)
qed

lemma line_search_flat:
  "line_search flat_model [[0]] [[0]] (1 / 10000) 0 =
     Some (Inr (flat_model, 1 / 10485760000, 0, True))"
  by (simp add: line_search_flat_retry line_search_flat_stop)

subsection \<open>The emitted values\<close>

lemma fit_lls_next_frame:
  assumes "fit_lls_next (m, g) = Some (out, m', g')"
  shows "\<exists>us vs. m' = m\<lparr> users := us, items := vs \<rparr>"
proof (cases "\<exists>v. out = Yield v")
  case True
  then obtain v where "out = Yield v" by blast
  with assms have "yield_post m g v m' g'" by (simp add: fit_lls_next_Yield)
  then obtain us vs where "m' = m\<lparr> users := us, items := vs \<rparr> \<or> m' = m"
    unfolding yield_post_def by (auto split: if_splits)
  moreover have "m = m\<lparr> users := users m, items := items m \<rparr>" by simp
  ultimately show ?thesis by metis
next
  case False
  with assms have "m' = m" using fit_lls_next_no_yield by blast
  moreover have "m = m\<lparr> users := users m, items := items m \<rparr>" by simp
  ultimately show ?thesis by metis
qed

lemma fit_lls_take_converged:
  "g_converged g \<Longrightarrow> fit_lls_take n (m, g) = Some ([], m, g)"
  by (cases n) (simp_all add: fit_lls_next_converged)

lemma yield_post_accepted:
  assumes "yield_post m g v m' g'" "g_old_ll g < v"
  shows "g_old_ll g' = v" and "log_likelihood_self m' = Inr v"
    and "g_converged g' \<longleftrightarrow> v - g_old_ll g < stop_thresh m"
  using assms unfolding yield_post_def log_likelihood_self_def by auto

lemma yield_post_rejected:
  assumes "yield_post m g v m' g'" "\<not> g_old_ll g < v"
  shows "g_old_ll g' = v" and "m' = m" and "g_converged g'" and "g_lr g' < min_learning_rate m"
  using assms unfolding yield_post_def by auto

lemma sorted_less_Cons2:
  fixes a b :: real
  assumes "a < b" "sorted_wrt (<) (b # xs)"
  shows "sorted_wrt (<) (a # b # xs)"
  using assms by (auto intro: less_trans)

lemma fit_lls_take_increasing:
  assumes "fit_lls_take n (m, g) = Some (vs, m', g')"
  shows "sorted_wrt (<) (g_old_ll g # butlast vs)
     \<and> (sorted_wrt (<) (g_old_ll g # vs) \<or> g_converged g' \<and> g_lr g' < min_learning_rate m')"
  using assms
proof (induction n arbitrary: m g vs)
  case 0
  then show ?case by simp
next
  case (Suc n)
  from Suc.prems obtain out m1 g1 where nx: "fit_lls_next (m, g) = Some (out, m1, g1)"
    by (cases "fit_lls_next (m, g)") auto
  show ?case
  proof (cases "\<exists>v. out = Yield v")
    case False
    with Suc.prems nx have "vs = []"
      by (cases out) auto
    then show ?thesis by simp
  next
    case True
    then obtain v where out: "out = Yield v" by blast
    from nx out have yp: "yield_post m g v m1 g1" by (simp add: fit_lls_next_Yield)
    from Suc.prems nx out obtain vs1 where tk: "fit_lls_take n (m1, g1) = Some (vs1, m', g')"
      and vs: "vs = v # vs1"
      by (cases "fit_lls_take n (m1, g1)") auto
    show ?thesis
    proof (cases "g_old_ll g < v")
      case True
      from yield_post_accepted(1)[OF yp True] have o1: "g_old_ll g1 = v" .
      from Suc.IH[OF tk] o1 have ih: "sorted_wrt (<) (v # butlast vs1)"
        "sorted_wrt (<) (v # vs1) \<or> g_converged g' \<and> g_lr g' < min_learning_rate m'"
        by simp_all
      have g1: "sorted_wrt (<) (g_old_ll g # butlast (v # vs1))"
      proof (cases "vs1 = []")
        case True
        then show ?thesis by simp
      next
        case False
        then have "butlast (v # vs1) = v # butlast vs1" by simp
        with sorted_less_Cons2[OF True ih(1)] show ?thesis by simp
      qed
      from ih(2) have g2: "sorted_wrt (<) (g_old_ll g # v # vs1)
          \<or> g_converged g' \<and> g_lr g' < min_learning_rate m'"
        using sorted_less_Cons2[OF True] by blast
      from g1 g2 show ?thesis unfolding vs by blast
    next
      case False
      from yield_post_rejected[OF yp False]
      have r: "m1 = m" "g_converged g1" "g_lr g1 < min_learning_rate m" by simp_all
      from tk fit_lls_take_converged[OF r(2), of n m1] have "vs1 = []" "m' = m1" "g' = g1"
        by simp_all
      with r show ?thesis unfolding vs by simp
    qed
  qed
qed

text \<open>
  Claim C2, as the code has it. The sequence starts, not converged, with \<open>old_ll\<close> the
  log-likelihood of the object. With a positive minimum learning rate a request for the
  next value returns. A value \<open>v\<close> emitted for an accepted step exceeds the previous
  value \<open>old_ll\<close> and is the log-likelihood of the factors the step has stored. A value
  that does not exceed \<open>old_ll\<close> is emitted only when the learning rate has fallen below
  the minimum: then the object is as it was, convergence is marked, and the next request
  ends the sequence. So the values emitted to any consumer, except possibly the last one,
  are strictly increasing from the initial log-likelihood on, and the last one breaks the
  order only at such an end.
\<close>

theorem fit_lls_accepted_values_increase:
  "(0 < min_learning_rate m \<longrightarrow> fit_lls_next (m, g) \<noteq> None)
   \<and> (fit_lls_next (m, g) = Some (Yield v, m', g') \<longrightarrow>
        g_old_ll g' = v
        \<and> (if g_old_ll g < v then log_likelihood_self m' = Inr v
            else m' = m \<and> g_converged g' \<and> g_lr g' < min_learning_rate m))
   \<and> (g_converged g \<longrightarrow> fit_lls_next (m, g) = Some (StopIteration, m, g))
   \<and> (fit_lls_take n (m, g) = Some (vs, m'', g'') \<longrightarrow>
        sorted_wrt (<) (g_old_ll g # butlast vs)
        \<and> (sorted_wrt (<) (g_old_ll g # vs)
            \<or> g_converged g'' \<and> g_lr g'' < min_learning_rate m''))
   \<and> (fit_lls_start m = Inr g\<^sub>0 \<longrightarrow>
        log_likelihood_self m = Inr (g_old_ll g\<^sub>0) \<and> \<not> g_converged g\<^sub>0)"
proof (intro conjI impI)
  assume "0 < min_learning_rate m"
  from fit_lls_next_total[OF this, of g] show "fit_lls_next (m, g) \<noteq> None" by auto
next
  assume a: "fit_lls_next (m, g) = Some (Yield v, m', g')"
  then have yp: "yield_post m g v m' g'" by (rule fit_lls_next_Yield)
  show "g_old_ll g' = v"
    using yield_post_accepted(1)[OF yp] yield_post_rejected(1)[OF yp] by blast
  show "if g_old_ll g < v then log_likelihood_self m' = Inr v
        else m' = m \<and> g_converged g' \<and> g_lr g' < min_learning_rate m"
    using yield_post_accepted(2)[OF yp] yield_post_rejected(2,3,4)[OF yp] by simp
next
  assume "g_converged g"
  then show "fit_lls_next (m, g) = Some (StopIteration, m, g)" by (rule fit_lls_next_converged)
next
  assume a: "fit_lls_take n (m, g) = Some (vs, m'', g'')"
  from fit_lls_take_increasing[OF a]
  show "sorted_wrt (<) (g_old_ll g # butlast vs)"
    and "sorted_wrt (<) (g_old_ll g # vs) \<or> g_converged g'' \<and> g_lr g'' < min_learning_rate m''"
    by blast+
next
  assume "fit_lls_start m = Inr g\<^sub>0"
  then obtain ll where ll: "log_likelihood_self m = Inr ll"
    and g0: "g\<^sub>0 = \<lparr> g_lr = learning_rate m, g_old_ll = ll, g_converged = False \<rparr>"
    by (auto simp: fit_lls_start_def bind_err_eq_Inr)
  show "log_likelihood_self m = Inr (g_old_ll g\<^sub>0)" by (simp add: ll g0)
  show "\<not> g_converged g\<^sub>0" by (simp add: g0)
qed

lemma fit_lls_next_unit:
  "fit_lls_next (unit_model, unit_gen0) = Some (Yield unit_ll1, unit_model1, unit_gen1)"
  by (simp add: fit_lls_next_def unit_gen0_def gradient_unit line_search_unit
      unit_ll1_def unit_model1_def unit_gen1_def)

lemma fit_lls_next_flat:
  "fit_lls_next (flat_model, flat_gen0) = Some (Yield 0, flat_model, flat_gen1)"
  by (simp add: fit_lls_next_def flat_gen0_def gradient_flat line_search_flat flat_gen1_def)

lemma fit_lls_take_unit:
  "fit_lls_take 3 (unit_model, unit_gen0) = Some ([unit_ll1], unit_model1, unit_gen1)"
proof -
  have "fit_lls_take 2 (unit_model1, unit_gen1) = Some ([], unit_model1, unit_gen1)"
    by (rule fit_lls_take_converged) (simp add: unit_gen1_def)
  then show ?thesis
    by (simp add: numeral_3_eq_3 numeral_2_eq_2 fit_lls_next_unit)
qed

lemma fit_lls_take_flat:
  "fit_lls_take 3 (flat_model, flat_gen0) = Some ([0], flat_model, flat_gen1)"
proof -
  have "fit_lls_take 2 (flat_model, flat_gen1) = Some ([], flat_model, flat_gen1)"
    by (rule fit_lls_take_converged) (simp add: flat_gen1_def)
  then show ?thesis
    by (simp add: numeral_3_eq_3 numeral_2_eq_2 fit_lls_next_flat)
qed

text \<open>\<open>fit\<close> on the 1 by 1 example with factors 1/2 ends after one step.\<close>

lemma fit_unit: "fit unit_model = Some (None, unit_model1)"
proof -
  have "fit_loop (unit_model1, unit_gen1) = Some (None, unit_model1)"
    by (subst fit_loop.simps) (simp add: fit_lls_next_converged unit_gen1_def)
  then have "fit_loop (unit_model, unit_gen0) = Some (None, unit_model1)"
    by (subst fit_loop.simps) (simp add: fit_lls_next_unit)
  then show ?thesis
    by (simp add: fit_def fit_lls_start_unit unit_gen0_def)
qed

text \<open>The start and an accepted step on the 1 by 1 example with factors 1/2.\<close>

theorem fit_lls_accepted_values_increase_witness:
  "0 < min_learning_rate unit_model
   \<and> fit_lls_start unit_model = Inr unit_gen0
   \<and> log_likelihood_self unit_model = Inr (g_old_ll unit_gen0)
   \<and> fit_lls_next (unit_model, unit_gen0) = Some (Yield unit_ll1, unit_model1, unit_gen1)
   \<and> g_old_ll unit_gen0 < unit_ll1
   \<and> log_likelihood_self unit_model1 = Inr unit_ll1
   \<and> g_converged unit_gen1
   \<and> fit_lls_next (unit_model1, unit_gen1) = Some (StopIteration, unit_model1, unit_gen1)
   \<and> fit_lls_take 3 (unit_model, unit_gen0) = Some ([unit_ll1], unit_model1, unit_gen1)
   \<and> sorted_wrt (<) [g_old_ll unit_gen0, unit_ll1]"
proof -
  have h1: "0 < min_learning_rate unit_model" by (simp add: unit_model_def)
  have h2: "fit_lls_next (unit_model, unit_gen0) = Some (Yield unit_ll1, unit_model1, unit_gen1)"
    by (rule fit_lls_next_unit)
  have h3: "g_old_ll unit_gen0 < unit_ll1" by (simp add: unit_gen0_def unit_ll1_def)
  have h4: "g_converged unit_gen1" by (simp add: unit_gen1_def)
  have h5: "fit_lls_take 3 (unit_model, unit_gen0) = Some ([unit_ll1], unit_model1, unit_gen1)"
    by (rule fit_lls_take_unit)
  note t = fit_lls_accepted_values_increase
  from t[of unit_model unit_gen0 unit_ll1 unit_model1 unit_gen1] h2 h3
  have c1: "log_likelihood_self unit_model1 = Inr unit_ll1" by simp
  from t[of unit_model1 unit_gen1] h4
  have c2: "fit_lls_next (unit_model1, unit_gen1) = Some (StopIteration, unit_model1, unit_gen1)"
    by blast
  from t[of unit_model unit_gen0 _ _ _ 3 "[unit_ll1]" unit_model1 unit_gen1] h5
  have "sorted_wrt (<) (g_old_ll unit_gen0 # [unit_ll1]) \<or>
        g_converged unit_gen1 \<and> g_lr unit_gen1 < min_learning_rate unit_model1"
    by blast
  moreover have "\<not> g_lr unit_gen1 < min_learning_rate unit_model1"
    by (simp add: unit_gen1_def unit_model1_def unit_model_def)
  ultimately have c3: "sorted_wrt (<) [g_old_ll unit_gen0, unit_ll1]" by blast
  have h0: "fit_lls_start unit_model = Inr unit_gen0"
    by (simp add: fit_lls_start_unit unit_gen0_def)
  from t[of unit_model unit_gen0 _ _ _ _ _ _ _ unit_gen0] h0
  have c0: "log_likelihood_self unit_model = Inr (g_old_ll unit_gen0)" by blast
  from h1 h0 c0 h2 h3 c1 h4 c2 h5 c3 show ?thesis by blast
qed

text \<open>Claim C2 as stated fails: on the 1 by 1 example with factors 0 the gradient is 0,
  every proposal is rejected, and after 20 halvings \<open>fit_lls\<close> emits the log-likelihood 0
  of the rejected proposal, which does not exceed the initial log-likelihood 0.\<close>

theorem fit_lls_increase_counterexample:
  "fit_lls_start flat_model = Inr flat_gen0
   \<and> g_old_ll flat_gen0 = 0
   \<and> fit_lls_next (flat_model, flat_gen0) = Some (Yield 0, flat_model, flat_gen1)
   \<and> fit_lls_take 3 (flat_model, flat_gen0) = Some ([0], flat_model, flat_gen1)"
  using fit_lls_start_flat fit_lls_next_flat fit_lls_take_flat by (simp add: flat_gen0_def)

subsection \<open>The learning rate\<close>

lemma fit_lls_start_rate:
  "fit_lls_start m = Inr g \<Longrightarrow> g_lr g = learning_rate m"
  by (auto simp: fit_lls_start_def bind_err_eq_Inr)

text \<open>The inner loop, with its rejected proposals counted.\<close>

lemma retried_iff:
  "retried self gu gv old_ll rate k \<longleftrightarrow>
     (\<forall>j<k. rejected_proposal self gu gv old_ll (rate * (1 / 2) ^ j)
            \<and> \<not> rate * (1 / 2) ^ Suc j < min_learning_rate self)"
proof (induction k arbitrary: rate)
  case 0
  then show ?case by simp
next
  case (Suc k)
  have e: "rate * (1 / 2) * (1 / 2) ^ j = rate * (1 / 2) ^ Suc j" for j by simp
  show ?case
  proof
    assume a: "retried self gu gv old_ll rate (Suc k)"
    then have r0: "rejected_proposal self gu gv old_ll rate"
      "\<not> rate * (1 / 2) < min_learning_rate self"
      and rr: "retried self gu gv old_ll (rate * (1 / 2)) k"
      by simp_all
    have rk: "\<forall>j<k. rejected_proposal self gu gv old_ll (rate * (1 / 2) ^ Suc j)
            \<and> \<not> rate * (1 / 2) ^ Suc (Suc j) < min_learning_rate self"
      using rr Suc.IH[of "rate * (1 / 2)"] unfolding e by blast
    show "\<forall>j<Suc k. rejected_proposal self gu gv old_ll (rate * (1 / 2) ^ j)
            \<and> \<not> rate * (1 / 2) ^ Suc j < min_learning_rate self"
    proof (intro allI impI)
      fix j assume "j < Suc k"
      show "rejected_proposal self gu gv old_ll (rate * (1 / 2) ^ j)
            \<and> \<not> rate * (1 / 2) ^ Suc j < min_learning_rate self"
      proof (cases j)
        case 0
        with r0 show ?thesis by simp
      next
        case (Suc i)
        with \<open>j < Suc k\<close> have "i < k" by simp
        with rk Suc show ?thesis by blast
      qed
    qed
  next
    assume a: "\<forall>j<Suc k. rejected_proposal self gu gv old_ll (rate * (1 / 2) ^ j)
            \<and> \<not> rate * (1 / 2) ^ Suc j < min_learning_rate self"
    from a[rule_format, of 0] have r0: "rejected_proposal self gu gv old_ll rate"
      "\<not> rate * (1 / 2) < min_learning_rate self" by simp_all
    have "\<forall>j<k. rejected_proposal self gu gv old_ll (rate * (1 / 2) * (1 / 2) ^ j)
            \<and> \<not> rate * (1 / 2) * (1 / 2) ^ Suc j < min_learning_rate self"
    proof (intro allI impI)
      fix j assume "j < k"
      then have "Suc j < Suc k" by simp
      from a[rule_format, OF this] show "rejected_proposal self gu gv old_ll (rate * (1 / 2) * (1 / 2) ^ j)
            \<and> \<not> rate * (1 / 2) * (1 / 2) ^ Suc j < min_learning_rate self"
        unfolding e .
    qed
    then have "retried self gu gv old_ll (rate * (1 / 2)) k"
      using Suc.IH[of "rate * (1 / 2)"] by blast
    with r0 show "retried self gu gv old_ll rate (Suc k)" by simp
  qed
qed

lemma rate_post_step:
  assumes IH: "\<And>y'. f self gu gv (rate * (1 / 2)) old_ll = Some y' \<Longrightarrow>
                 rate_post self gu gv (rate * (1 / 2)) old_ll y'"
    and body: "(case log_likelihood self (step_to (users self) gu rate) (step_to (items self) gv rate) of
        Inl e \<Rightarrow> Some (Inl e)
      | Inr new_ll \<Rightarrow>
          if old_ll < new_ll
          then Some (Inr (self\<lparr> users := step_to (users self) gu rate,
                                items := step_to (items self) gv rate \<rparr>,
                          rate * (5 / 4), new_ll, new_ll - old_ll < stop_thresh self))
          else if rate * (1 / 2) < min_learning_rate self
          then Some (Inr (self, rate * (1 / 2), new_ll, True))
          else f self gu gv (rate * (1 / 2)) old_ll) = Some y"
  shows "rate_post self gu gv rate old_ll y"
proof (cases "log_likelihood self (step_to (users self) gu rate) (step_to (items self) gv rate)")
  case (Inl e)
  with body have "y = Inl e" by simp
  then show ?thesis unfolding rate_post_def by blast
next
  case (Inr new_ll)
  consider (acc) "old_ll < new_ll"
    | (stop) "\<not> old_ll < new_ll" "rate * (1 / 2) < min_learning_rate self"
    | (retry) "\<not> old_ll < new_ll" "\<not> rate * (1 / 2) < min_learning_rate self"
    by blast
  then show ?thesis
  proof cases
    case acc
    with body Inr have y: "y = Inr (self\<lparr> users := step_to (users self) gu rate,
        items := step_to (items self) gv rate \<rparr>,
        rate * (5 / 4), new_ll, new_ll - old_ll < stop_thresh self)"
      by simp
    have "retried self gu gv old_ll rate 0
        \<and> log_likelihood self (step_to (users self) gu (rate * (1 / 2) ^ 0))
                            (step_to (items self) gv (rate * (1 / 2) ^ 0)) = Inr new_ll
        \<and> (if old_ll < new_ll then rate * (5 / 4) = rate * (1 / 2) ^ 0 * (5 / 4)
            else rate * (1 / 2) ^ Suc 0 < min_learning_rate self
               \<and> rate * (5 / 4) = rate * (1 / 2) ^ Suc 0)"
      using acc Inr by simp
    then show ?thesis unfolding rate_post_def y by blast
  next
    case stop
    with body Inr have y: "y = Inr (self, rate * (1 / 2), new_ll, True)"
      by simp
    have "retried self gu gv old_ll rate 0
        \<and> log_likelihood self (step_to (users self) gu (rate * (1 / 2) ^ 0))
                            (step_to (items self) gv (rate * (1 / 2) ^ 0)) = Inr new_ll
        \<and> (if old_ll < new_ll then rate * (1 / 2) = rate * (1 / 2) ^ 0 * (5 / 4)
            else rate * (1 / 2) ^ Suc 0 < min_learning_rate self
               \<and> rate * (1 / 2) = rate * (1 / 2) ^ Suc 0)"
      using stop Inr by simp
    then show ?thesis unfolding rate_post_def y by blast
  next
    case retry
    with body Inr have "f self gu gv (rate * (1 / 2)) old_ll = Some y"
      by simp
    from IH[OF this] have "rate_post self gu gv (rate * (1 / 2)) old_ll y" .
    then consider (err) e where "y = Inl e"
      | (res) k self' rate' nl conv where "y = Inr (self', rate', nl, conv)"
          "retried self gu gv old_ll (rate * (1 / 2)) k"
          "log_likelihood self (step_to (users self) gu (rate * (1 / 2) * (1 / 2) ^ k))
                            (step_to (items self) gv (rate * (1 / 2) * (1 / 2) ^ k)) = Inr nl"
          "if old_ll < nl then rate' = rate * (1 / 2) * (1 / 2) ^ k * (5 / 4)
            else rate * (1 / 2) * (1 / 2) ^ Suc k < min_learning_rate self
               \<and> rate' = rate * (1 / 2) * (1 / 2) ^ Suc k"
      unfolding rate_post_def by blast
    then show ?thesis
    proof cases
      case err
      then show ?thesis unfolding rate_post_def by blast
    next
      case res
      have e: "rate * (1 / 2) * (1 / 2) ^ j = rate * (1 / 2) ^ Suc j" for j by simp
      have rp: "rejected_proposal self gu gv old_ll rate"
        using Inr retry(1) by (simp add: rejected_proposal_def)
      have rt: "retried self gu gv old_ll rate (Suc k)"
        using rp retry(2) res(2) by simp
      have "retried self gu gv old_ll rate (Suc k)
        \<and> log_likelihood self (step_to (users self) gu (rate * (1 / 2) ^ Suc k))
                            (step_to (items self) gv (rate * (1 / 2) ^ Suc k)) = Inr nl
        \<and> (if old_ll < nl then rate' = rate * (1 / 2) ^ Suc k * (5 / 4)
            else rate * (1 / 2) ^ Suc (Suc k) < min_learning_rate self
               \<and> rate' = rate * (1 / 2) ^ Suc (Suc k))"
        using rt res(3,4) unfolding e by blast
      then show ?thesis unfolding rate_post_def res(1) by blast
    qed
  qed
qed

lemma line_search_rate:
  assumes "line_search self gu gv rate old_ll = Some y"
  shows "rate_post self gu gv rate old_ll y"
proof (rule line_search.raw_induct[where P = rate_post, OF _ assms])
  fix f self gu gv rate old_ll y
  assume IH: "\<And>self gu gv rate old_ll y. f self gu gv rate old_ll = Some y \<Longrightarrow>
                 rate_post self gu gv rate old_ll y"
    and body: "(let new_users = mat_add (users self) (mat_scale rate gu);
          new_items = mat_add (items self) (mat_scale rate gv)
      in case log_likelihood self new_users new_items of
         Inl e \<Rightarrow> Some (Inl e)
         | Inr new_ll \<Rightarrow>
             if old_ll < new_ll
             then Some
                   (Inr (self\<lparr>users := new_users, items := new_items\<rparr>,
                         rate * (5 / 4), new_ll,
                         new_ll - old_ll < stop_thresh self))
             else if rate * (1 / 2) < min_learning_rate self
                  then Some (Inr (self, rate * (1 / 2), new_ll, True))
                  else f self gu gv (rate * (1 / 2)) old_ll) = Some y"
  have b: "(case log_likelihood self (step_to (users self) gu rate) (step_to (items self) gv rate) of
         Inl e \<Rightarrow> Some (Inl e)
         | Inr new_ll \<Rightarrow>
             if old_ll < new_ll
             then Some
                   (Inr (self\<lparr>users := step_to (users self) gu rate,
                              items := step_to (items self) gv rate\<rparr>,
                         rate * (5 / 4), new_ll,
                         new_ll - old_ll < stop_thresh self))
             else if rate * (1 / 2) < min_learning_rate self
                  then Some (Inr (self, rate * (1 / 2), new_ll, True))
                  else f self gu gv (rate * (1 / 2)) old_ll) = Some y"
    using body unfolding Let_def step_to_def .
  show "rate_post self gu gv rate old_ll y"
    apply (rule rate_post_step[where f = f])
     apply (erule IH)
    apply (rule b)
    done
qed

lemma fit_lls_next_rate:
  assumes "fit_lls_next (m, g) = Some (Yield v, m', g')"
  shows "\<exists>gu gv k.
      gradient m = Inr (gu, gv)
      \<and> (\<forall>j<k. rejected_proposal m gu gv (g_old_ll g) (g_lr g * (1 / 2) ^ j)
               \<and> \<not> g_lr g * (1 / 2) ^ Suc j < min_learning_rate m)
      \<and> log_likelihood m (step_to (users m) gu (g_lr g * (1 / 2) ^ k))
                          (step_to (items m) gv (g_lr g * (1 / 2) ^ k)) = Inr v
      \<and> (if g_old_ll g < v then g_lr g' = g_lr g * (1 / 2) ^ k * (5 / 4)
          else g_lr g * (1 / 2) ^ Suc k < min_learning_rate m
             \<and> g_lr g' = g_lr g * (1 / 2) ^ Suc k)"
proof -
  have nc: "\<not> g_converged g" using assms by (auto simp: fit_lls_next_def)
  from assms nc obtain gu gv where gr: "gradient m = Inr (gu, gv)"
    by (cases "gradient m") (auto simp: fit_lls_next_def)
  from assms nc gr obtain y where ls: "line_search m gu gv (g_lr g) (g_old_ll g) = Some y"
    by (cases "line_search m gu gv (g_lr g) (g_old_ll g)") (auto simp: fit_lls_next_def)
  from assms nc gr ls obtain rate' conv
    where y: "y = Inr (m', rate', v, conv)" and g': "g_lr g' = rate'"
    by (cases y) (auto simp: fit_lls_next_def)
  from line_search_rate[OF ls] y obtain k where
    k: "retried m gu gv (g_old_ll g) (g_lr g) k"
      "log_likelihood m (step_to (users m) gu (g_lr g * (1 / 2) ^ k))
                        (step_to (items m) gv (g_lr g * (1 / 2) ^ k)) = Inr v"
      "if g_old_ll g < v then rate' = g_lr g * (1 / 2) ^ k * (5 / 4)
       else g_lr g * (1 / 2) ^ Suc k < min_learning_rate m \<and> rate' = g_lr g * (1 / 2) ^ Suc k"
    unfolding rate_post_def by blast
  show ?thesis
    apply (rule exI[of _ gu], rule exI[of _ gv], rule exI[of _ k])
    using gr k(2,3) k(1)[unfolded retried_iff] unfolding g' by blast
qed

text \<open>The first step on the 1 by 1 example with the learning rate 8.\<close>

lemma log_likelihood_eager:
  "log_likelihood eager_model [[x]] [[y]] = Inr (- (1 - x * y)\<^sup>2 / 2 - \<bar>x\<bar> / 20 - \<bar>x\<bar> / 20)"
  by (simp add: log_likelihood_def eager_model_def unit_model_def row_at_def py_index_def
      py_int_def np_dot_def dot_sum_def np_linalg_norm_1x1)

lemma gradient_eager: "gradient eager_model = Inr ([[13 / 40]], [[13 / 40]])"
  by (simp add: gradient_def eager_model_def unit_model_def mat_neg_div_def py_index_def py_int_def
      np_dot_def dot_sum_def vec_add_def vec_scale_def)

lemma eager_fields:
  "users eager_model = [[1 / 2]]" "items eager_model = [[1 / 2]]"
  "stop_thresh eager_model = 1 / 100" "min_learning_rate eager_model = 1 / 10000000000"
  "learning_rate eager_model = 8"
  by (simp_all add: eager_model_def unit_model_def)

lemma fit_lls_start_eager: "fit_lls_start eager_model = Inr eager_gen0"
  by (simp add: fit_lls_start_def log_likelihood_self_def eager_fields log_likelihood_eager
      eager_gen0_def power2_eq_square)

lemma rejected_proposal_eager:
  "rejected_proposal eager_model [[13 / 40]] [[13 / 40]] (- (53 / 160)) 8"
  "rejected_proposal eager_model [[13 / 40]] [[13 / 40]] (- (53 / 160)) 4"
  by (simp_all add: rejected_proposal_def eager_fields step_to_1x1 log_likelihood_eager
      power2_eq_square)

lemma line_search_eager:
  "line_search eager_model [[13 / 40]] [[13 / 40]] 8 (- (53 / 160)) =
     Some (Inr (eager_model1, 5 / 2, eager_ll1, False))"
proof -
  have s3: "line_search eager_model [[13 / 40]] [[13 / 40]] 2 (- (53 / 160)) =
     Some (Inr (eager_model1, 5 / 2, eager_ll1, False))"
    by (subst line_search_unfold)
       (simp add: eager_fields step_to_1x1 log_likelihood_eager power2_eq_square
          eager_model1_def eager_ll1_def)
  have s2: "line_search eager_model [[13 / 40]] [[13 / 40]] 4 (- (53 / 160)) =
     line_search eager_model [[13 / 40]] [[13 / 40]] 2 (- (53 / 160))"
    by (subst line_search_unfold)
       (simp add: eager_fields step_to_1x1 log_likelihood_eager power2_eq_square)
  have s1: "line_search eager_model [[13 / 40]] [[13 / 40]] 8 (- (53 / 160)) =
     line_search eager_model [[13 / 40]] [[13 / 40]] 4 (- (53 / 160))"
    by (subst line_search_unfold)
       (simp add: eager_fields step_to_1x1 log_likelihood_eager power2_eq_square)
  show ?thesis by (simp only: s1 s2 s3)
qed

lemma fit_lls_next_eager:
  "fit_lls_next (eager_model, eager_gen0) = Some (Yield eager_ll1, eager_model1, eager_gen1)"
  by (simp add: fit_lls_next_def eager_gen0_def gradient_eager line_search_eager eager_gen1_def)

text \<open>
  Claim C5, as the code has it. The rate that \<open>fit_lls\<close> adapts is its local variable
  \<open>lr\<close>, which starts at the field \<open>learning_rate\<close>. In the step that ends with the
  \<open>yield\<close> of \<open>v\<close> there is a number \<open>k\<close> of retries: each of the proposals at the rates
  \<open>lr\<close>, \<open>lr / 2\<close>, ..., \<open>lr / 2 ^ (k - 1)\<close> along the gradient is rejected and the rate halved
  after it is not below the minimum; the proposal at \<open>lr / 2 ^ k\<close> has the log-likelihood
  \<open>v\<close>. If it is accepted the rate becomes \<open>lr / 2 ^ k * 5/4\<close>; if not, it is halved once
  more, to \<open>lr / 2 ^ (k + 1)\<close>, which is below the minimum. So the rate is halved exactly
  once for each rejected proposal and multiplied by 5/4 for the accepted one. The field
  \<open>learning_rate\<close> and the other five configuration scalars are not assigned.
\<close>

theorem fit_lls_learning_rate_local:
  "(fit_lls_start m = Inr g\<^sub>0 \<longrightarrow> g_lr g\<^sub>0 = learning_rate m)
   \<and> (fit_lls_next (m, g) = Some (out, m', g') \<longrightarrow>
        learning_rate m' = learning_rate m
        \<and> min_learning_rate m' = min_learning_rate m
        \<and> stop_thresh m' = stop_thresh m
        \<and> sigma_sq m' = sigma_sq m
        \<and> sigma_u_sq m' = sigma_u_sq m
        \<and> sigma_v_sq m' = sigma_v_sq m
        \<and> (\<forall>v. out = Yield v \<longrightarrow>
              (\<exists>gu gv k.
                 gradient m = Inr (gu, gv)
                 \<and> (\<forall>j<k. rejected_proposal m gu gv (g_old_ll g) (g_lr g * (1 / 2) ^ j)
                          \<and> \<not> g_lr g * (1 / 2) ^ Suc j < min_learning_rate m)
                 \<and> log_likelihood m (step_to (users m) gu (g_lr g * (1 / 2) ^ k))
                                     (step_to (items m) gv (g_lr g * (1 / 2) ^ k)) = Inr v
                 \<and> (if g_old_ll g < v then g_lr g' = g_lr g * (1 / 2) ^ k * (5 / 4)
                     else g_lr g * (1 / 2) ^ Suc k < min_learning_rate m
                        \<and> g_lr g' = g_lr g * (1 / 2) ^ Suc k))))"
proof (intro conjI impI allI)
  assume "fit_lls_start m = Inr g\<^sub>0"
  then show "g_lr g\<^sub>0 = learning_rate m" by (rule fit_lls_start_rate)
next
  assume a: "fit_lls_next (m, g) = Some (out, m', g')"
  from fit_lls_next_frame[OF a] obtain us vs where m': "m' = m\<lparr> users := us, items := vs \<rparr>"
    by blast
  show "learning_rate m' = learning_rate m" "min_learning_rate m' = min_learning_rate m"
    "stop_thresh m' = stop_thresh m" "sigma_sq m' = sigma_sq m" "sigma_u_sq m' = sigma_u_sq m"
    "sigma_v_sq m' = sigma_v_sq m"
    by (simp_all add: m')
  fix v assume "out = Yield v"
  with a have "fit_lls_next (m, g) = Some (Yield v, m', g')" by simp
  then show "\<exists>gu gv k.
      gradient m = Inr (gu, gv)
      \<and> (\<forall>j<k. rejected_proposal m gu gv (g_old_ll g) (g_lr g * (1 / 2) ^ j)
               \<and> \<not> g_lr g * (1 / 2) ^ Suc j < min_learning_rate m)
      \<and> log_likelihood m (step_to (users m) gu (g_lr g * (1 / 2) ^ k))
                          (step_to (items m) gv (g_lr g * (1 / 2) ^ k)) = Inr v
      \<and> (if g_old_ll g < v then g_lr g' = g_lr g * (1 / 2) ^ k * (5 / 4)
          else g_lr g * (1 / 2) ^ Suc k < min_learning_rate m
             \<and> g_lr g' = g_lr g * (1 / 2) ^ Suc k)"
    by (rule fit_lls_next_rate)
qed

text \<open>The first step on the 1 by 1 example with the learning rate 8 has two retries: the
  proposals at the rates 8 and 4 are rejected, the one at the rate 2 is accepted, and the
  rate leaves as \<open>8 * (1/2) ^ 2 * 5/4\<close>. On the example with zero gradient no proposal is
  accepted: the rate leaves as \<open>1/10000 * (1/2) ^ 20\<close>, below the minimum.\<close>

theorem fit_lls_learning_rate_local_witness:
  "fit_lls_start eager_model = Inr eager_gen0
   \<and> g_lr eager_gen0 = learning_rate eager_model
   \<and> fit_lls_next (eager_model, eager_gen0) = Some (Yield eager_ll1, eager_model1, eager_gen1)
   \<and> gradient eager_model = Inr ([[13 / 40]], [[13 / 40]])
   \<and> rejected_proposal eager_model [[13 / 40]] [[13 / 40]] (g_old_ll eager_gen0) (g_lr eager_gen0)
   \<and> \<not> g_lr eager_gen0 * (1 / 2) < min_learning_rate eager_model
   \<and> rejected_proposal eager_model [[13 / 40]] [[13 / 40]] (g_old_ll eager_gen0)
        (g_lr eager_gen0 * (1 / 2))
   \<and> \<not> g_lr eager_gen0 * (1 / 2) ^ 2 < min_learning_rate eager_model
   \<and> log_likelihood eager_model
        (step_to (users eager_model) [[13 / 40]] (g_lr eager_gen0 * (1 / 2) ^ 2))
        (step_to (items eager_model) [[13 / 40]] (g_lr eager_gen0 * (1 / 2) ^ 2)) = Inr eager_ll1
   \<and> g_old_ll eager_gen0 < eager_ll1
   \<and> g_lr eager_gen1 = g_lr eager_gen0 * (1 / 2) ^ 2 * (5 / 4)
   \<and> learning_rate eager_model1 = learning_rate eager_model
   \<and> min_learning_rate eager_model1 = min_learning_rate eager_model
   \<and> stop_thresh eager_model1 = stop_thresh eager_model
   \<and> sigma_sq eager_model1 = sigma_sq eager_model
   \<and> sigma_u_sq eager_model1 = sigma_u_sq eager_model
   \<and> sigma_v_sq eager_model1 = sigma_v_sq eager_model
   \<and> fit_lls_next (flat_model, flat_gen0) = Some (Yield 0, flat_model, flat_gen1)
   \<and> \<not> g_old_ll flat_gen0 < 0
   \<and> g_lr flat_gen1 = g_lr flat_gen0 * (1 / 2) ^ 20
   \<and> g_lr flat_gen1 < min_learning_rate flat_model"
proof -
  have h1: "fit_lls_start eager_model = Inr eager_gen0" by (rule fit_lls_start_eager)
  have h2: "fit_lls_next (eager_model, eager_gen0) = Some (Yield eager_ll1, eager_model1, eager_gen1)"
    by (rule fit_lls_next_eager)
  have h3: "fit_lls_next (flat_model, flat_gen0) = Some (Yield 0, flat_model, flat_gen1)"
    by (rule fit_lls_next_flat)
  note t = fit_lls_learning_rate_local[of eager_model eager_gen0 eager_gen0 "Yield eager_ll1"
      eager_model1 eager_gen1]
  from t h1 have c1: "g_lr eager_gen0 = learning_rate eager_model" by blast
  from t h2 have c2: "learning_rate eager_model1 = learning_rate eager_model
     \<and> min_learning_rate eager_model1 = min_learning_rate eager_model
     \<and> stop_thresh eager_model1 = stop_thresh eager_model
     \<and> sigma_sq eager_model1 = sigma_sq eager_model
     \<and> sigma_u_sq eager_model1 = sigma_u_sq eager_model
     \<and> sigma_v_sq eager_model1 = sigma_v_sq eager_model"
    by blast
  have c3: "gradient eager_model = Inr ([[13 / 40]], [[13 / 40]])" by (rule gradient_eager)
  have c4: "rejected_proposal eager_model [[13 / 40]] [[13 / 40]] (g_old_ll eager_gen0) (g_lr eager_gen0)"
    "rejected_proposal eager_model [[13 / 40]] [[13 / 40]] (g_old_ll eager_gen0)
        (g_lr eager_gen0 * (1 / 2))"
    using rejected_proposal_eager by (simp_all add: eager_gen0_def)
  have c5: "\<not> g_lr eager_gen0 * (1 / 2) < min_learning_rate eager_model"
    "\<not> g_lr eager_gen0 * (1 / 2) ^ 2 < min_learning_rate eager_model"
    "g_old_ll eager_gen0 < eager_ll1"
    "g_lr eager_gen1 = g_lr eager_gen0 * (1 / 2) ^ 2 * (5 / 4)"
    by (simp_all add: eager_gen0_def eager_gen1_def eager_ll1_def eager_fields power2_eq_square)
  have c6: "log_likelihood eager_model
        (step_to (users eager_model) [[13 / 40]] (g_lr eager_gen0 * (1 / 2) ^ 2))
        (step_to (items eager_model) [[13 / 40]] (g_lr eager_gen0 * (1 / 2) ^ 2)) = Inr eager_ll1"
    by (simp add: eager_gen0_def eager_fields step_to_1x1 log_likelihood_eager power2_eq_square
        eager_ll1_def)
  have c7: "\<not> g_old_ll flat_gen0 < 0" "g_lr flat_gen1 = g_lr flat_gen0 * (1 / 2) ^ 20"
    "g_lr flat_gen1 < min_learning_rate flat_model"
    by (simp_all add: flat_gen0_def flat_gen1_def flat_model_def power_divide)
  from h1 c1 h2 c3 c4 c5 c6 c2 h3 c7 show ?thesis by blast
qed

text \<open>Claim C5 as stated fails: after an accepted step the field \<open>learning_rate\<close> is
  still 1/10000; only the local rate is 1/8000.\<close>

theorem fit_lls_learning_rate_counterexample:
  "learning_rate unit_model = 1 / 10000
   \<and> fit_lls_next (unit_model, unit_gen0) = Some (Yield unit_ll1, unit_model1, unit_gen1)
   \<and> g_old_ll unit_gen0 < unit_ll1
   \<and> learning_rate unit_model1 = 1 / 10000
   \<and> g_lr unit_gen1 = 1 / 8000"
  using fit_lls_next_unit
  by (simp add: unit_model_def unit_model1_def unit_gen0_def unit_gen1_def unit_ll1_def)

subsection \<open>Indices out of range\<close>




subsection \<open>\<open>predicted_matrix\<close>\<close>

lemma dot_sum_nth:
  assumes "length u = d" "length v = d"
  shows "dot_sum u v = (\<Sum>k<d. u ! k * v ! k)"
proof -
  have "dot_sum u v = (\<Sum>k = 0..<length (zip u v). map (\<lambda>(a, b). a * b) (zip u v) ! k)"
    unfolding dot_sum_def by (simp add: sum_list_sum_nth)
  also have "\<dots> = (\<Sum>k = 0..<d. u ! k * v ! k)"
    using assms by (intro sum.cong) simp_all
  finally show ?thesis by (simp add: lessThan_atLeast0)
qed

lemma has_shape_row: "has_shape M n d \<Longrightarrow> i < n \<Longrightarrow> length (M ! i) = d"
  by (auto simp: has_shape_def list_all_length)

lemma np_dot_T_product:
  assumes U: "has_shape U n d" and V: "has_shape V c d"
  shows "np_dot_T U V = Inr (matrix_of n c (product_entry U V d))"
proof -
  have al: "shapes_aligned U V"
    using U V by (auto simp: shapes_aligned_def has_shape_def list_all_iff)
  have "map (\<lambda>u. map (\<lambda>v. dot_sum u v) V) U = matrix_of n c (product_entry U V d)"
  proof (rule nth_equalityI)
    show "length (map (\<lambda>u. map (dot_sum u) V) U) = length (matrix_of n c (product_entry U V d))"
      using U by (simp add: matrix_of_def has_shape_def)
  next
    fix i assume "i < length (map (\<lambda>u. map (dot_sum u) V) U)"
    then have i: "i < n" using U by (simp add: has_shape_def)
    then have iU: "i < length U" using U by (simp add: has_shape_def)
    have "map (dot_sum (U ! i)) V = map (\<lambda>j. product_entry U V d i j) [0..<c]"
    proof (rule nth_equalityI)
      show "length (map (dot_sum (U ! i)) V) = length (map (\<lambda>j. product_entry U V d i j) [0..<c])"
        using V by (simp add: has_shape_def)
    next
      fix j assume "j < length (map (dot_sum (U ! i)) V)"
      then have j: "j < c" using V by (simp add: has_shape_def)
      then have jV: "j < length V" using V by (simp add: has_shape_def)
      show "map (dot_sum (U ! i)) V ! j = map (\<lambda>j. product_entry U V d i j) [0..<c] ! j"
        using i j jV dot_sum_nth[OF has_shape_row[OF U i] has_shape_row[OF V j]]
        by (simp add: product_entry_def)
    qed
    then show "map (\<lambda>u. map (dot_sum u) V) U ! i = matrix_of n c (product_entry U V d) ! i"
      using i iU by (simp add: matrix_of_def)
  qed
  with al show ?thesis by (simp add: np_dot_T_def)
qed

lemma has_shape_example:
  "has_shape (users example_model) (nat (num_users example_model)) 1"
  "has_shape (items example_model) (nat (num_items example_model)) 1"
  by (simp_all add: has_shape_def example_model_def)

text \<open>
  Claim C8. For factor matrices of the shapes \<open>(num_users, d)\<close> and \<open>(num_items, d)\<close>,
  whatever their entries, \<open>predicted_matrix\<close> returns the dense \<open>num_users\<close> by
  \<open>num_items\<close> matrix whose entry \<open>(i, j)\<close> is \<open>\<Sum>k<d. users[i][k] * items[j][k]\<close>, the
  product of \<open>users\<close> with the transpose of \<open>items\<close>.
\<close>

theorem predicted_matrix_is_product:
  assumes "has_shape (users m) (nat (num_users m)) d"
    and "has_shape (items m) (nat (num_items m)) d"
  shows "predicted_matrix m =
     Inr (matrix_of (nat (num_users m)) (nat (num_items m)) (product_entry (users m) (items m) d))"
  unfolding predicted_matrix_def using assms by (rule np_dot_T_product)

text \<open>The 2 by 2 example: every entry is 1/4.\<close>

theorem predicted_matrix_is_product_witness:
  "has_shape (users example_model) (nat (num_users example_model)) 1
   \<and> has_shape (items example_model) (nat (num_items example_model)) 1
   \<and> predicted_matrix example_model = Inr [[1 / 4, 1 / 4], [1 / 4, 1 / 4]]"
proof -
  note h = has_shape_example
  have "matrix_of (nat (num_users example_model)) (nat (num_items example_model))
          (product_entry (users example_model) (items example_model) 1)
        = [[1 / 4, 1 / 4], [1 / 4, 1 / 4]]"
    by (simp add: matrix_of_def product_entry_def example_model_def upt_rec)
  with predicted_matrix_is_product[OF h] h show ?thesis by simp
qed

subsection \<open>\<open>rmse\<close>\<close>

lemma nrows_matrix_of [simp]: "nrows (matrix_of n c f) = n"
  by (simp add: nrows_def matrix_of_def)

lemma ncols_matrix_of: "0 < n \<Longrightarrow> ncols (matrix_of n c f) = c"
  by (simp add: ncols_def matrix_of_def upt_conv_Cons)

lemma matrix_of_nth: "i < n \<Longrightarrow> j < c \<Longrightarrow> matrix_of n c f ! i ! j = f i j"
  by (simp add: matrix_of_def)

lemma sum_list_upt: "sum_list (map h [0..<c]) = (\<Sum>j<c. h j)" for h :: "nat \<Rightarrow> real"
  by (induction c) simp_all

lemma sum_list_concat_upt:
  "sum_list (map g (concat (map row [0..<n]))) = (\<Sum>i<n. sum_list (map g (row i)))"
  for g :: "real \<Rightarrow> real"
  by (induction n) simp_all

lemma sum_list_squares_matrix_of:
  "sum_list (map (\<lambda>x. x\<^sup>2) (concat (matrix_of n c f))) = (\<Sum>i<n. \<Sum>j<c. (f i j)\<^sup>2)"
  unfolding matrix_of_def sum_list_concat_upt by (simp add: comp_def sum_list_upt)

lemma broadcast_get_plain:
  assumes "i < nrows M" "j < ncols M"
  shows "broadcast_get M i j = M ! i ! j"
  using assms by (auto simp: broadcast_get_def)

lemma np_sub_same_shape:
  assumes T: "has_shape T n c" and "0 < n"
  shows "np_sub T (matrix_of n c f) = Inr (matrix_of n c (\<lambda>i j. T ! i ! j - f i j))"
proof -
  let ?P = "matrix_of n c f"
  have nT: "nrows T = n" using T by (simp add: has_shape_def nrows_def)
  have cT: "ncols T = c"
    using T \<open>0 < n\<close> by (cases T) (auto simp: has_shape_def ncols_def)
  have cP: "ncols ?P = c" using \<open>0 < n\<close> by (rule ncols_matrix_of)
  have nP: "nrows ?P = n" by (rule nrows_matrix_of)
  have e: "broadcast_get T i j - broadcast_get ?P i j = T ! i ! j - f i j" if "i < n" "j < c" for i j
    using that by (simp only: broadcast_get_plain nT cT cP nP matrix_of_nth)
  have "np_sub T ?P =
      Inr (map (\<lambda>i. map (\<lambda>j. broadcast_get T i j - broadcast_get ?P i j) [0..<c]) [0..<n])"
    unfolding np_sub_def nT cT cP nP by (simp add: broadcast_dim_def)
  also have "map (\<lambda>i. map (\<lambda>j. broadcast_get T i j - broadcast_get ?P i j) [0..<c]) [0..<n]
      = map (\<lambda>i. map (\<lambda>j. T ! i ! j - f i j) [0..<c]) [0..<n]"
    by (intro map_cong refl e) simp_all
  finally show ?thesis unfolding matrix_of_def[of n c "\<lambda>i j. T ! i ! j - f i j"] .
qed

lemma np_sub_mismatch:
  assumes "broadcast_dim (nrows A) (nrows B) = None \<or> broadcast_dim (ncols A) (ncols B) = None"
  shows "np_sub A B = Inl ValueError_broadcast"
  using assms by (auto simp: np_sub_def split: option.splits)

lemma broadcast_dim_None: "broadcast_dim a b = None \<longleftrightarrow> a \<noteq> b \<and> a \<noteq> 1 \<and> b \<noteq> 1"
  by (simp add: broadcast_dim_def)

text \<open>
  Claim C6, as the code has it. On an object with factor matrices of the shapes
  \<open>(num_users, d)\<close> and \<open>(num_items, d)\<close> and at least one user and one item, \<open>rmse\<close>
  fails when along some axis the length of its argument differs from that of the
  predicted matrix and neither length is 1; for an argument of the shape
  \<open>(num_users, num_items)\<close> it returns the square root of the sum of the squared
  differences over all entries, divided by the number of entries.
\<close>

theorem rmse_shapes:
  assumes "has_shape (users m) (nat (num_users m)) d"
    and "has_shape (items m) (nat (num_items m)) d"
    and "0 < num_users m" and "0 < num_items m"
  shows "((nrows T \<noteq> nat (num_users m) \<and> nrows T \<noteq> 1 \<and> nat (num_users m) \<noteq> 1)
          \<or> (ncols T \<noteq> nat (num_items m) \<and> ncols T \<noteq> 1 \<and> nat (num_items m) \<noteq> 1)
         \<longrightarrow> rmse m T = Inl ValueError_broadcast)
     \<and> (has_shape T (nat (num_users m)) (nat (num_items m))
         \<longrightarrow> rmse m T =
             Inr (sqrt ((\<Sum>i<nat (num_users m). \<Sum>j<nat (num_items m).
                           (T ! i ! j - product_entry (users m) (items m) d i j)\<^sup>2)
                        / real (nat (num_users m) * nat (num_items m)))))"
proof -
  let ?n = "nat (num_users m)" and ?c = "nat (num_items m)"
  let ?P = "matrix_of ?n ?c (product_entry (users m) (items m) d)"
  have n: "0 < ?n" and c: "0 < ?c" using assms(3,4) by simp_all
  have P: "predicted_matrix m = Inr ?P"
    unfolding predicted_matrix_def using assms(1,2) by (rule np_dot_T_product)
  have cP: "ncols ?P = ?c" using n by (rule ncols_matrix_of)
  show ?thesis
  proof (intro conjI impI)
    assume "(nrows T \<noteq> ?n \<and> nrows T \<noteq> 1 \<and> ?n \<noteq> 1) \<or> (ncols T \<noteq> ?c \<and> ncols T \<noteq> 1 \<and> ?c \<noteq> 1)"
    then have "broadcast_dim (nrows T) (nrows ?P) = None \<or> broadcast_dim (ncols T) (ncols ?P) = None"
      by (simp add: broadcast_dim_None cP)
    then have "np_sub T ?P = Inl ValueError_broadcast" by (rule np_sub_mismatch)
    then show "rmse m T = Inl ValueError_broadcast" by (simp add: rmse_def P)
  next
    assume T: "has_shape T ?n ?c"
    have nT: "nrows T = ?n" using T by (simp add: has_shape_def nrows_def)
    have cT: "ncols T = ?c"
      using T n by (cases T) (auto simp: has_shape_def ncols_def)
    have sub: "np_sub T ?P = Inr (matrix_of ?n ?c (\<lambda>i j. T ! i ! j - product_entry (users m) (items m) d i j))"
      using T n by (rule np_sub_same_shape)
    show "rmse m T = Inr (sqrt ((\<Sum>i<?n. \<Sum>j<?c. (T ! i ! j - product_entry (users m) (items m) d i j)\<^sup>2)
                        / real (?n * ?c)))"
      using n c by (simp add: rmse_def P sub sum_list_squares_matrix_of nT cT)
  qed
qed

text \<open>The 2 by 2 example against a 2 by 3 array, and against a 2 by 2 array that differs
  from the prediction in one entry, by 1.\<close>

theorem rmse_shapes_witness:
  "has_shape (users example_model) (nat (num_users example_model)) 1
   \<and> has_shape (items example_model) (nat (num_items example_model)) 1
   \<and> 0 < num_users example_model \<and> 0 < num_items example_model
   \<and> nrows [[1, 2, 3], [4, 5, 6::real]] = 2 \<and> ncols [[1, 2, 3], [4, 5, 6::real]] = 3
   \<and> rmse example_model [[1, 2, 3], [4, 5, 6]] = Inl ValueError_broadcast
   \<and> has_shape [[1 / 4, 1 / 4], [1 / 4, 5 / 4]] (nat (num_users example_model)) (nat (num_items example_model))
   \<and> rmse example_model [[1 / 4, 1 / 4], [1 / 4, 5 / 4]] = Inr (1 / 2)"
proof -
  note h = has_shape_example
  have p: "0 < num_users example_model" "0 < num_items example_model"
    by (simp_all add: example_model_def)
  have s: "nrows [[1, 2, 3], [4, 5, 6::real]] = 2" "ncols [[1, 2, 3], [4, 5, 6::real]] = 3"
    by (simp_all add: nrows_def ncols_def)
  have nm: "nat (num_users example_model) = 2" "nat (num_items example_model) = 2"
    by (simp_all add: example_model_def)
  have t: "has_shape [[1 / 4, 1 / 4], [1 / 4, 5 / 4]] (nat (num_users example_model)) (nat (num_items example_model))"
    by (simp add: has_shape_def nm)
  from rmse_shapes[OF h p, of "[[1, 2, 3], [4, 5, 6]]"] s nm
  have c1: "rmse example_model [[1, 2, 3], [4, 5, 6]] = Inl ValueError_broadcast" by simp
  have "(\<Sum>i<nat (num_users example_model). \<Sum>j<nat (num_items example_model).
          ([[1 / 4, 1 / 4], [1 / 4, 5 / 4]] ! i ! j
             - product_entry (users example_model) (items example_model) 1 i j)\<^sup>2) = 1"
    by (simp add: nm product_entry_def example_model_def lessThan_Suc numeral_2_eq_2)
  with rmse_shapes[OF h p, of "[[1 / 4, 1 / 4], [1 / 4, 5 / 4]]"] t nm
  have "rmse example_model [[1 / 4, 1 / 4], [1 / 4, 5 / 4]] = Inr (sqrt (1 / 4))"
    by simp
  also have "sqrt (1 / 4) = 1 / 2"
    by (simp add: real_sqrt_divide)
  finally have c2: "rmse example_model [[1 / 4, 1 / 4], [1 / 4, 5 / 4]] = Inr (1 / 2)" .
  from h p s c1 t c2 show ?thesis by blast
qed

text \<open>Claim C6 as stated fails: a 1 by 1 array is broadcast against the 2 by 2 prediction,
  and \<open>rmse\<close> returns a number.\<close>

theorem rmse_broadcast_counterexample:
  "num_users example_model = 2 \<and> num_items example_model = 2
   \<and> nrows [[1 / 4]] = 1 \<and> ncols [[1 / 4]] = 1
   \<and> rmse example_model [[1 / 4]] = Inr 0"
  by (simp add: example_model_def nrows_def ncols_def rmse_def predicted_matrix_def np_dot_T_def
      shapes_aligned_def dot_sum_def np_sub_def broadcast_dim_def broadcast_get_def upt_rec)

subsection \<open>\<open>log_likelihood\<close>\<close>

lemma row_at_in_range:
  "0 \<le> i \<Longrightarrow> i < int (length M) \<Longrightarrow> row_at M i = Inr (M ! nat i)"
  by (simp add: row_at_def py_index_def)

lemma length_3_cases:
  assumes "length r = 3"
  obtains i j x where "r = [i, j, x]"
  using assms by (auto simp: numeral_3_eq_3 length_Suc_conv)

lemma sq_error_loop_value:
  assumes "list_all (rating_in_range U V) rs"
  shows "sq_error_loop rs U V acc = Inr (acc + squared_error rs U V)"
  using assms
proof (induction rs arbitrary: acc)
  case Nil
  then show ?case by (simp add: squared_error_def)
next
  case (Cons r rs)
  then have r: "rating_in_range U V r" and rs: "list_all (rating_in_range U V) rs"
    by simp_all
  from r obtain i j x where rr: "r = [i, j, x]"
    by (auto simp: rating_in_range_def elim: length_3_cases)
  from r rr have i: "row_at U (py_int i) = Inr (U ! nat (py_int i))"
    and j: "row_at V (py_int j) = Inr (V ! nat (py_int j))"
    and d: "np_dot (U ! nat (py_int i)) (V ! nat (py_int j))
              = Inr (dot_sum (U ! nat (py_int i)) (V ! nat (py_int j)))"
    by (simp_all add: rating_in_range_def row_at_in_range np_dot_def)
  have "sq_error_loop (r # rs) U V acc
      = sq_error_loop rs U V (acc + (x - dot_sum (U ! nat (py_int i)) (V ! nat (py_int j)))\<^sup>2)"
    unfolding rr by (simp add: i j d)
  also have "\<dots> = Inr (acc + (x - dot_sum (U ! nat (py_int i)) (V ! nat (py_int j)))\<^sup>2
                        + squared_error rs U V)"
    by (rule Cons.IH[OF rs])
  also have "acc + (x - dot_sum (U ! nat (py_int i)) (V ! nat (py_int j)))\<^sup>2 + squared_error rs U V
      = acc + squared_error (r # rs) U V"
    unfolding rr by (simp add: squared_error_def predicted_rating_def)
  finally show ?case .
qed

text \<open>The value of \<open>log_likelihood\<close> on ratings in range: the norms are not squared.\<close>

lemma log_likelihood_value:
  assumes "list_all (rating_in_range U V) (ratings m)"
  shows "log_likelihood m U V =
     Inr (- squared_error (ratings m) U V / (2 * sigma_sq m)
          - np_linalg_norm U / (2 * sigma_u_sq m)
          - np_linalg_norm U / (2 * sigma_v_sq m))"
  by (simp add: log_likelihood_def sq_error_loop_value[OF assms])

text \<open>
  Claim C1. \<open>log_likelihood\<close> returns the negated sum of the squared errors over
  \<open>2 * sigma_sq\<close>, less two penalty terms that are both computed from the row factors.
  The claim takes the penalties to be squared Frobenius norms; the code takes the norm
  itself. On the 2 by 2 example with the row factors \<open>[[2], [0]]\<close> and the column
  factors \<open>[[0], [0]]\<close> the code returns \<open>-126/5\<close>, the claimed value is \<open>-127/5\<close>.
\<close>

theorem log_likelihood_norm_not_squared:
  "log_likelihood example_model [[2], [0]] [[0], [0]] = Inr (- (126 / 5))
   \<and> claimed_log_likelihood example_model [[2], [0]] [[0], [0]] = - (127 / 5)"
proof -
  have rs: "ratings example_model = [[0, 0, 5], [0, 1, 3], [1, 0, 4]]"
    and sg: "sigma_sq example_model = 1" "sigma_u_sq example_model = 10"
      "sigma_v_sq example_model = 10"
    by (simp_all add: example_model_def)
  have r: "list_all (rating_in_range [[2], [0]] [[0], [0]]) (ratings example_model)"
    by (simp add: rs rating_in_range_def py_int_def)
  have se: "squared_error (ratings example_model) [[2], [0]] [[0], [0]] = 50"
    by (simp add: rs squared_error_def predicted_rating_def py_int_def dot_sum_def)
  have nm: "np_linalg_norm [[2], [0]] = 2"
    by (simp add: np_linalg_norm_def)
  have fs: "frobenius_sq [[2], [0]] = 4"
    by (simp add: frobenius_sq_def)
  show ?thesis
    by (simp add: log_likelihood_value[OF r] claimed_log_likelihood_def se nm fs sg)
qed

subsection \<open>\<open>__copy__\<close>\<close>

lemma setstate_getstate: "setstate m' (getstate m) = Inr m"
  by (cases m, cases m')
     (simp add: getstate_def setattr_def as_int_def as_float_def as_array_def as_set_def)

lemma copy_eq_new_model: "copy m rs = new_model (ratings m) (latent_d m) rs"
  by (cases "new_model (ratings m) (latent_d m) rs") (simp_all add: copy_def setstate_getstate)

lemma deepcopy_eq_copy: "deepcopy m rs = copy m rs"
  by (simp add: deepcopy_def copy_def)

lemma valid_indices_columns:
  "valid_indices rs \<Longrightarrow> list_all (\<lambda>r. is_index (r ! 0)) rs \<and> list_all (\<lambda>r. is_index (r ! 1)) rs"
  by (simp add: valid_indices_def list_all_iff)

lemma top_index_real:
  assumes "rs \<noteq> []" "list_all (\<lambda>r. is_index (r ! c)) rs"
  shows "real_of_int (top_index c rs) = Max (set (column c rs)) + 1"
    and "0 < top_index c rs"
proof -
  let ?xs = "column c rs"
  have ne: "?xs \<noteq> []" and all: "list_all is_index ?xs"
    using assms by (simp_all add: column_def list_all_iff)
  from is_index_Max[OF ne all] obtain j where j: "Max (set ?xs) = real_of_int j" "0 \<le> j"
    unfolding is_index_def by (metis of_int_0_le_iff)
  have "py_int (real_of_int j + 1) = j + 1"
    using py_int_of_int[of "j + 1"] by simp
  then have t: "top_index c rs = j + 1" by (simp add: top_index_def j(1))
  show "real_of_int (top_index c rs) = Max (set ?xs) + 1" by (simp add: t j(1))
  show "0 < top_index c rs" using t j(2) by simp
qed

text \<open>The object \<open>__init__\<close> builds from a rating array with rows.\<close>

lemma new_model_value:
  assumes ne: "rating_tuples \<noteq> []" and sh: "list_all (\<lambda>r. length r = 3) rating_tuples"
    and d: "0 \<le> d"
    and t0: "0 \<le> top_index 0 rating_tuples" and t1: "0 \<le> top_index 1 rating_tuples"
  shows "new_model rating_tuples d rs =
     Inr \<lparr> latent_d = d,
           num_users = top_index 0 rating_tuples, num_items = top_index 1 rating_tuples,
           learning_rate = 1 / 10000, min_learning_rate = 1 / 10000000000, stop_thresh = 1 / 100,
           sigma_sq = 1, sigma_u_sq = 10, sigma_v_sq = 10,
           ratings = rating_tuples,
           users = random_matrix rs 0 (nat (top_index 0 rating_tuples)) (nat d),
           items = random_matrix rs (nat (top_index 0 rating_tuples) * nat d)
                     (nat (top_index 1 rating_tuples)) (nat d),
           rated = index_pairs rating_tuples,
           unrated = grid (top_index 0 rating_tuples) (top_index 1 rating_tuples)
                     - index_pairs rating_tuples \<rparr>"
proof -
  have c0: "np_max (column 0 rating_tuples) = Inr (Max (set (column 0 rating_tuples)))"
    and c1: "np_max (column 1 rating_tuples) = Inr (Max (set (column 1 rating_tuples)))"
    using ne by (simp_all add: np_max_nonempty column_def)
  have r0: "np_random rs 0 (top_index 0 rating_tuples) d
      = Inr (random_matrix rs 0 (nat (top_index 0 rating_tuples)) (nat d))"
    and r1: "np_random rs (nat (top_index 0 rating_tuples) * nat d) (top_index 1 rating_tuples) d
      = Inr (random_matrix rs (nat (top_index 0 rating_tuples) * nat d)
               (nat (top_index 1 rating_tuples)) (nat d))"
    using d t0 t1 by (simp_all add: np_random_def random_matrix_def)
  show ?thesis
    unfolding new_model_def init_def c0 c1 Let_def
    using sh by (simp add: top_index_def[symmetric] r0 r1 cinit_def del: One_nat_def)
qed

text \<open>\<open>__init__\<close>, \<open>add_ratings\<close> and the steps of \<open>fit_lls\<close> keep the fields that are
  derived from the rating array in agreement with it.\<close>

lemma new_model_well_formed:
  assumes "new_model rating_tuples d rs = Inr m" "valid_indices rating_tuples"
  shows "well_formed m"
proof -
  note c = new_model_Inr[OF assms(1)]
  have f: "ratings m = rating_tuples" "latent_d m = d"
    "num_users m = top_index 0 rating_tuples" "num_items m = top_index 1 rating_tuples"
    "rated m = index_pairs rating_tuples"
    "unrated m = grid (top_index 0 rating_tuples) (top_index 1 rating_tuples)
                 - index_pairs rating_tuples"
    by (simp_all add: c(6))
  show ?thesis
    unfolding well_formed_def f using c(1,2,3) assms(2) by simp
qed

lemma fit_lls_next_well_formed:
  assumes "well_formed m" "fit_lls_next (m, g) = Some (out, m', g')"
  shows "well_formed m'"
proof -
  from fit_lls_next_frame[OF assms(2)] obtain us vs where "m' = m\<lparr> users := us, items := vs \<rparr>"
    by blast
  with assms(1) show ?thesis by (simp add: well_formed_def)
qed

lemma well_formed_ncols: "well_formed m \<Longrightarrow> ncols (ratings m) = 3"
  by (cases "ratings m") (auto simp: well_formed_def ncols_def)

lemma add_ratings_success_conditions:
  assumes ok: "add_ratings m extra = (None, m')" and c3: "ncols (ratings m) = 3"
  shows "extra \<noteq> []" and "list_all (\<lambda>r. length r = 3) extra"
    and "list_all (\<lambda>r. r ! 0 + 1 \<le> real_of_int (num_users m)) extra"
    and "list_all (\<lambda>r. r ! 1 + 1 \<le> real_of_int (num_items m)) extra"
    and "new_items_of extra \<subseteq> unrated m"
    and "m' = m\<lparr> rated := rated m \<union> new_items_of extra,
                   unrated := unrated m - new_items_of extra,
                   ratings := ratings m @ extra \<rparr>"
proof -
  show ne: "extra \<noteq> []"
  proof
    assume "extra = []"
    then have "add_ratings m extra = (Some TypeError_bad_shape_for_extra, m)"
      by (simp add: add_ratings_def ndmin2_def c3)
    with ok show False by simp
  qed
  then have n2: "ndmin2 extra = extra" by (simp add: ndmin2_def)
  show sh: "list_all (\<lambda>r. length r = 3) extra"
  proof (rule ccontr)
    assume "\<not> list_all (\<lambda>r. length r = 3) extra"
    then have "add_ratings m extra = (Some TypeError_bad_shape_for_extra, m)"
      by (simp add: add_ratings_def n2 c3)
    with ok show False by simp
  qed
  have sh': "list_all (\<lambda>r. length r = ncols (ratings m)) extra" and c2: "2 \<le> ncols (ratings m)"
    using sh c3 by simp_all
  note ch = add_ratings_checked[OF sh' ne c2]
  show a0: "list_all (\<lambda>r. r ! 0 + 1 \<le> real_of_int (num_users m)) extra"
    using ok ch by (auto split: if_splits)
  show a1: "list_all (\<lambda>r. r ! 1 + 1 \<le> real_of_int (num_items m)) extra"
    using ok ch a0 by (auto split: if_splits)
  show su: "new_items_of extra \<subseteq> unrated m"
    using ok ch a0 a1 by (auto split: if_splits)
  show "m' = m\<lparr> rated := rated m \<union> new_items_of extra,
                   unrated := unrated m - new_items_of extra,
                   ratings := ratings m @ extra \<rparr>"
    using ok ch a0 a1 su by simp
qed

lemma new_items_of_valid:
  assumes "valid_indices extra"
  shows "new_items_of extra = index_pairs extra"
proof -
  have "map (\<lambda>r. (real_of_int (py_int (r ! 0)), real_of_int (py_int (r ! 1)))) extra
      = map (\<lambda>r. (r ! 0, r ! 1)) extra"
    using assms by (intro map_cong refl) (simp add: valid_indices_def list_all_iff py_int_index)
  then show ?thesis by (simp add: new_items_of_def index_pairs_def)
qed

lemma top_index_append:
  assumes ne: "rs \<noteq> []" and v: "list_all (\<lambda>r. is_index (r ! c)) rs"
    and ex: "extra \<noteq> []"
    and le: "list_all (\<lambda>r. r ! c + 1 \<le> real_of_int (top_index c rs)) extra"
  shows "top_index c (rs @ extra) = top_index c rs"
proof -
  let ?A = "set (column c rs)" and ?B = "set (column c extra)"
  have fin: "finite ?A" "finite ?B" and nem: "?A \<noteq> {}" "?B \<noteq> {}"
    using ne ex by (simp_all add: column_def)
  have t: "real_of_int (top_index c rs) = Max ?A + 1" using ne v by (rule top_index_real)
  have "b \<le> Max ?A" if "b \<in> ?B" for b
    using that le t by (auto simp: column_def list_all_iff)
  then have "Max ?B \<le> Max ?A" using fin(2) nem(2) by simp
  then have "Max (?A \<union> ?B) = Max ?A"
    using Max_Un[OF fin(1) nem(1) fin(2) nem(2)] by simp
  moreover have "set (column c (rs @ extra)) = ?A \<union> ?B" by (simp add: column_def)
  ultimately show ?thesis by (simp add: top_index_def)
qed

lemma add_ratings_well_formed:
  assumes wf: "well_formed m" and v: "valid_indices extra"
    and ok: "add_ratings m extra = (None, m')"
  shows "well_formed m'"
proof -
  note c = add_ratings_success_conditions[OF ok well_formed_ncols[OF wf]]
  from wf have w: "ratings m \<noteq> []" "list_all (\<lambda>r. length r = 3) (ratings m)"
    "valid_indices (ratings m)" "0 \<le> latent_d m"
    "num_users m = top_index 0 (ratings m)" "num_items m = top_index 1 (ratings m)"
    "rated m = index_pairs (ratings m)"
    "unrated m = grid (num_users m) (num_items m) - rated m"
    by (simp_all add: well_formed_def)
  note vc = valid_indices_columns[OF w(3)]
  have t0: "top_index 0 (ratings m @ extra) = top_index 0 (ratings m)"
    by (rule top_index_append[OF w(1) conjunct1[OF vc] c(1) c(3)[unfolded w(5)]])
  have t1: "top_index 1 (ratings m @ extra) = top_index 1 (ratings m)"
    by (rule top_index_append[OF w(1) conjunct2[OF vc] c(1) c(4)[unfolded w(6)]])
  have f: "ratings m' = ratings m @ extra" "latent_d m' = latent_d m"
    "num_users m' = num_users m" "num_items m' = num_items m"
    "rated m' = rated m \<union> index_pairs extra"
    "unrated m' = unrated m - index_pairs extra"
    by (simp_all add: c(6) new_items_of_valid[OF v])
  have ip: "index_pairs (ratings m @ extra) = rated m \<union> index_pairs extra"
    by (simp add: index_pairs_def w(7))
  have un: "unrated m - index_pairs extra
      = grid (num_users m) (num_items m) - (rated m \<union> index_pairs extra)"
    unfolding w(8) by blast
  show ?thesis
    unfolding well_formed_def f t0 t1 ip un
    using w(1,2,3,4,5,6) c(2) v by (simp add: valid_indices_def)
qed

text \<open>
  Claim C9. \<open>__copy__\<close> is the constructor run on the ratings and the latent dimension
  of the original, followed by a \<open>__setstate__\<close> of the new object's own state, which
  changes nothing; \<open>__deepcopy__\<close> gives the same. For an original whose derived fields
  agree with its rating array, the copy has the ratings, the rated and unrated sets and
  the dimensions of the original, factor matrices drawn anew from the random source, and
  the defaults of \<open>__cinit__\<close> for the six configuration scalars.
\<close>

theorem copy_rebuilds:
  assumes "well_formed m"
  shows "copy m rs = new_model (ratings m) (latent_d m) rs
     \<and> deepcopy m rs = copy m rs
     \<and> copy m rs =
         Inr \<lparr> latent_d = latent_d m, num_users = num_users m, num_items = num_items m,
               learning_rate = 1 / 10000, min_learning_rate = 1 / 10000000000,
               stop_thresh = 1 / 100, sigma_sq = 1, sigma_u_sq = 10, sigma_v_sq = 10,
               ratings = ratings m,
               users = random_matrix rs 0 (nat (num_users m)) (nat (latent_d m)),
               items = random_matrix rs (nat (num_users m) * nat (latent_d m))
                         (nat (num_items m)) (nat (latent_d m)),
               rated = rated m, unrated = unrated m \<rparr>"
proof -
  from assms have w: "ratings m \<noteq> []" "list_all (\<lambda>r. length r = 3) (ratings m)"
    "valid_indices (ratings m)" "0 \<le> latent_d m"
    "num_users m = top_index 0 (ratings m)" "num_items m = top_index 1 (ratings m)"
    "rated m = index_pairs (ratings m)"
    "unrated m = grid (num_users m) (num_items m) - rated m"
    by (simp_all add: well_formed_def)
  note vc = valid_indices_columns[OF w(3)]
  have p: "0 \<le> top_index 0 (ratings m)" "0 \<le> top_index 1 (ratings m)"
    using top_index_real(2)[OF w(1)] vc by (simp_all add: less_imp_le)
  show ?thesis
    unfolding copy_eq_new_model deepcopy_eq_copy
    by (simp add: new_model_value[OF w(1,2,4) p] w(5,6,7,8)[symmetric] del: One_nat_def)
qed

lemma well_formed_unit_model1: "well_formed unit_model1"
proof -
  have "well_formed unit_model"
    using new_model_unit by (rule new_model_well_formed) (simp add: valid_indices_def is_index_def)
  then show ?thesis by (simp add: well_formed_def unit_model1_def)
qed

text \<open>The 1 by 1 example after its first fitting step: the copy has the factors 1/2 of
  the new draws, not the fitted ones.\<close>

theorem copy_rebuilds_witness:
  "well_formed unit_model1
   \<and> users unit_model1 = [[200013 / 400000]]
   \<and> copy unit_model1 (\<lambda>k. 1 / 2) = Inr unit_model
   \<and> users unit_model = [[1 / 2]]"
proof -
  have h: "well_formed unit_model1" by (rule well_formed_unit_model1)
  have f: "latent_d unit_model1 = 1" "num_users unit_model1 = 1" "num_items unit_model1 = 1"
    "ratings unit_model1 = [[0, 0, 1]]" "rated unit_model1 = {(0, 0)}" "unrated unit_model1 = {}"
    "users unit_model1 = [[200013 / 400000]]"
    by (simp_all add: unit_model1_def unit_model_def)
  have r: "random_matrix (\<lambda>k. 1 / 2) off (Suc 0) (Suc 0) = [[1 / 2]]" for off
    by (simp add: random_matrix_def)
  from copy_rebuilds[OF h, of "\<lambda>k. 1 / 2", THEN conjunct2, THEN conjunct2]
  have "copy unit_model1 (\<lambda>k. 1 / 2) = Inr unit_model"
    by (simp add: f r unit_model_def)
  moreover have "users unit_model = [[1 / 2]]" by (simp add: unit_model_def)
  ultimately show ?thesis using h f(7) by blast
qed

subsection \<open>Invariants of the objects the methods produce\<close>

lemma has_shape_random_matrix: "has_shape (random_matrix rs off n d) n d"
  by (simp add: has_shape_def random_matrix_def list_all_iff)

lemma has_shape_update:
  assumes "has_shape M n d" "length v = d"
  shows "has_shape (M[a := v]) n d"
proof (cases "a < length M")
  case True
  with assms show ?thesis by (auto simp: has_shape_def list_all_length nth_list_update)
next
  case False
  then have "M[a := v] = M" by (simp add: list_update_beyond)
  with assms show ?thesis by simp
qed

lemma length_vec_add: "length (vec_add u v) = min (length u) (length v)"
  by (simp add: vec_add_def)

lemma length_vec_scale: "length (vec_scale c v) = length v"
  by (simp add: vec_scale_def)

lemma has_shape_mat_neg_div: "has_shape M n d \<Longrightarrow> has_shape (mat_neg_div M c) n d"
  by (simp add: has_shape_def mat_neg_div_def list_all_iff)

lemma has_shape_step_to:
  assumes "has_shape M n d" "has_shape G n d"
  shows "has_shape (step_to M G r) n d"
  using assms
  by (auto simp: has_shape_def step_to_def mat_add_def mat_scale_def list_all_length length_vec_add)

lemma py_index_bound: "py_index n i = Inr k \<Longrightarrow> k < n"
  by (auto simp: py_index_def split: if_splits)

lemma gradient_loop_shape:
  assumes "has_shape (users m) n d" "has_shape (items m) c d"
    and "has_shape gu n d" "has_shape gv c d"
    and "gradient_loop m rs (gu, gv) = Inr (gu', gv')"
  shows "has_shape gu' n d \<and> has_shape gv' c d"
  using assms(3,4,5)
proof (induction rs arbitrary: gu gv)
  case Nil
  then show ?case by simp
next
  case (Cons row rs)
  from Cons.prems(3) obtain i j x where row: "row = [i, j, x]"
    by (auto split: list.splits)
  from Cons.prems(3) row obtain a where a: "py_index (length (users m)) (py_int i) = Inr a"
    by (cases "py_index (length (users m)) (py_int i)") auto
  from Cons.prems(3) row a obtain b where b: "py_index (length (items m)) (py_int j) = Inr b"
    by (cases "py_index (length (items m)) (py_int j)") auto
  from Cons.prems(3) row a b obtain r_hat where
    rh: "np_dot (users m ! a) (items m ! b) = Inr r_hat"
    by (cases "np_dot (users m ! a) (items m ! b)") auto
  have an: "a < n" and bc: "b < c"
    using py_index_bound[OF a] py_index_bound[OF b] assms(1,2) by (simp_all add: has_shape_def)
  let ?k = "(x - r_hat) / sigma_sq m"
  let ?gu = "gu[a := vec_add (gu ! a) (vec_scale ?k (items m ! b))]"
  let ?gv = "gv[b := vec_add (gv ! b) (vec_scale ?k (users m ! a))]"
  have rec: "gradient_loop m rs (?gu, ?gv) = Inr (gu', gv')"
    using Cons.prems(3) by (simp add: row a b rh Let_def)
  have su: "has_shape ?gu n d"
    using has_shape_row[OF Cons.prems(1) an] has_shape_row[OF assms(2) bc]
    by (intro has_shape_update[OF Cons.prems(1)]) (simp add: length_vec_add length_vec_scale)
  have sv: "has_shape ?gv c d"
    using has_shape_row[OF Cons.prems(2) bc] has_shape_row[OF assms(1) an]
    by (intro has_shape_update[OF Cons.prems(2)]) (simp add: length_vec_add length_vec_scale)
  from Cons.IH[OF su sv rec] show ?case .
qed

lemma gradient_shape:
  assumes "has_shape (users m) n d" "has_shape (items m) c d" "gradient m = Inr (gu, gv)"
  shows "has_shape gu n d \<and> has_shape gv c d"
  using gradient_loop_shape[OF assms(1,2) has_shape_mat_neg_div[OF assms(1)]
      has_shape_mat_neg_div[OF assms(2)] assms(3)[unfolded gradient_def]] .

lemma fit_lls_next_factors_shaped:
  assumes fs: "factors_shaped m" and nx: "fit_lls_next (m, g) = Some (out, m', g')"
  shows "factors_shaped m'"
proof (cases "\<exists>v. out = Yield v")
  case False
  with nx have "m' = m" using fit_lls_next_no_yield by blast
  with fs show ?thesis by simp
next
  case True
  then obtain v where "out = Yield v" by blast
  with nx have "yield_post m g v m' g'" by (simp add: fit_lls_next_Yield)
  then obtain gu gv k where gr: "gradient m = Inr (gu, gv)"
    and m': "m' = m\<lparr> users := step_to (users m) gu (g_lr g * (1 / 2) ^ k),
                      items := step_to (items m) gv (g_lr g * (1 / 2) ^ k) \<rparr> \<or> m' = m"
    unfolding yield_post_def by (auto split: if_splits)
  from fs have u: "has_shape (users m) (nat (num_users m)) (nat (latent_d m))"
    and i: "has_shape (items m) (nat (num_items m)) (nat (latent_d m))"
    by (simp_all add: factors_shaped_def)
  from gradient_shape[OF u i gr] have "has_shape gu (nat (num_users m)) (nat (latent_d m))"
    "has_shape gv (nat (num_items m)) (nat (latent_d m))" by simp_all
  with u i have "has_shape (step_to (users m) gu r) (nat (num_users m)) (nat (latent_d m))"
    "has_shape (step_to (items m) gv r) (nat (num_items m)) (nat (latent_d m))" for r
    by (simp_all add: has_shape_step_to)
  with m' fs show ?thesis by (auto simp: factors_shaped_def)
qed

lemma new_model_factors_shaped:
  assumes "new_model rating_tuples d rs = Inr m"
  shows "factors_shaped m"
proof -
  note c = new_model_Inr[OF assms]
  from new_model_value[OF c(1,2,3,4,5), of rs] assms
  have "users m = random_matrix rs 0 (nat (num_users m)) (nat (latent_d m))"
    "items m = random_matrix rs (nat (top_index 0 rating_tuples) * nat d)
                 (nat (num_items m)) (nat (latent_d m))"
    by auto
  then show ?thesis
    unfolding factors_shaped_def using has_shape_random_matrix by metis
qed

lemma add_ratings_factors_shaped:
  assumes "factors_shaped m" "add_ratings m extra = (None, m')"
  shows "factors_shaped m'"
  using assms add_ratings_success(2)[OF assms(2)] by (simp add: factors_shaped_def)

lemma fit_lls_next_partitioned:
  assumes "partitioned m" "fit_lls_next (m, g) = Some (out, m', g')"
  shows "partitioned m'"
proof -
  from fit_lls_next_frame[OF assms(2)] obtain us vs where "m' = m\<lparr> users := us, items := vs \<rparr>"
    by blast
  with assms(1) show ?thesis by (simp add: partitioned_def)
qed

lemma well_formed_positive:
  assumes "well_formed m"
  shows "0 < num_users m \<and> 0 < num_items m"
proof -
  from assms have w: "ratings m \<noteq> []" "valid_indices (ratings m)"
    "num_users m = top_index 0 (ratings m)" "num_items m = top_index 1 (ratings m)"
    by (simp_all add: well_formed_def)
  note vc = valid_indices_columns[OF w(2)]
  show ?thesis
    using top_index_real(2)[OF w(1) conjunct1[OF vc]] top_index_real(2)[OF w(1) conjunct2[OF vc]]
    by (simp add: w(3,4))
qed

text \<open>Every object that \<open>__init__\<close>, \<open>add_ratings\<close> and \<open>fit_lls\<close> produce from valid
  indices satisfies the hypotheses of the theorems above.\<close>

lemma reachable_invariants:
  assumes "reachable m"
  shows "well_formed m \<and> partitioned m \<and> factors_shaped m"
  using assms
proof (induction rule: reachable.induct)
  case (built rating_tuples d rs m)
  then show ?case
    using new_model_well_formed new_model_partitioned new_model_factors_shaped by blast
next
  case (rated_more m extra m')
  then show ?case
    using add_ratings_well_formed add_ratings_partitioned add_ratings_factors_shaped by blast
next
  case (fitted m g out m' g')
  then show ?case
    using fit_lls_next_well_formed fit_lls_next_partitioned fit_lls_next_factors_shaped by blast
qed

end
